theory Spec2Isabelle
  imports Main "HOL-Library.Char_ord" "HOL-Library.List_Lexorder"
begin

section \<open>The platform under the program\<close>

text \<open>
  Four things the program's behaviour depends on are not in its source: which characters
  beyond ASCII the Python runtime's Unicode database classes as decimal digits (each
  given by the bytes of its UTF-8 encoding, with its value), whether the C library's
  \<open>strftime\<close> pads a year below 1000 to four digits (glibc does not, so that the year 999
  prints as \<open>999\<close>; other C libraries do), and whether, at each call, \<open>os.makedirs\<close> and
  the write of \<open>to_csv\<close> raise. They are parameters of the model; every property below
  is proved for every platform.
\<close>

record platform =
  decimal_digits :: "(string \<times> nat) list"
  pads_year :: bool
  makedirs_raises :: "nat \<Rightarrow> string \<Rightarrow> bool"
  to_csv_raises :: "nat \<Rightarrow> string \<Rightarrow> bool"

section \<open>Dates: \<open>datetime.strptime\<close> and \<open>strftime\<close> with the format \<open>%Y-%m-%d\<close>\<close>

text \<open>
  \<open>save_daily_csvs\<close> (src/download_gsc_data.py, lines 115 and 120) parses every group key
  with \<open>datetime.datetime.strptime(date_str, '%Y-%m-%d').date()\<close> and prints the resulting
  date back with \<open>strftime('%Y-%m-%d')\<close>. CPython's \<open>_strptime\<close> turns the format into the
  regular expression

  \<^verbatim>\<open>(?P<Y>\d\d\d\d)-(?P<m>1[0-2]|0[1-9]|[1-9])-(?P<d>3[0-1]|[1-2]\d|0[1-9]|[1-9]| [1-9])\<close>

  matches it at the start of the string (\<open>re.match\<close>: leftmost alternative first, with
  backtracking), raises \<open>ValueError\<close> when nothing matches or when unconverted data
  remains after the match, converts the three groups with \<open>int\<close>, and builds a
  \<open>datetime\<close>, whose constructor raises \<open>ValueError\<close> for the year 0 and for a day
  beyond the month's length.

  A text is the list of the bytes of its UTF-8 encoding; byte order is code point order.
  The pattern is a \<open>str\<close> pattern, so \<open>\d\<close> matches every Unicode decimal digit, and \<open>int\<close>
  reads every such digit by its value; the classes \<open>[0-2]\<close>, \<open>[1-9]\<close> and so on hold
  ASCII digits only. A matcher below returns every way of matching a prefix, in the order
  in which the backtracking search finds them, as the list of (value of the matched
  digits as \<open>int\<close> reads them, unread rest).
\<close>

type_synonym matcher = "string \<Rightarrow> (nat \<times> string) list"

text \<open>An ASCII digit between two bounds, as in \<open>[1-9]\<close>.\<close>

definition digit_in :: "char \<Rightarrow> char \<Rightarrow> matcher" where
  "digit_in lo hi s =
     (case s of
        c # r \<Rightarrow> if lo \<le> c \<and> c \<le> hi then [(of_char c - 48, r)] else []
      | [] \<Rightarrow> [])"

text \<open>
  A decimal digit beyond ASCII: an entry of the platform's table whose bytes (the first
  of them not an ASCII byte) the text starts with.
\<close>

definition unicode_digit :: "(string \<times> nat) list \<Rightarrow> matcher" where
  "unicode_digit tab s =
     [(v, drop (length k) s).
        (k, v) \<leftarrow> tab,
        k \<noteq> [] \<and> 128 \<le> (of_char (hd k) :: nat) \<and> v \<le> 9 \<and> take (length k) s = k]"

text \<open>\<open>\d\<close>, a literal character, and two digit matchers in sequence.\<close>

definition re_digit :: "(string \<times> nat) list \<Rightarrow> matcher" where
  "re_digit tab s = digit_in CHR ''0'' CHR ''9'' s @ unicode_digit tab s"

definition literal :: "char \<Rightarrow> string \<Rightarrow> string list" where
  "literal c s = (case s of a # r \<Rightarrow> if a = c then [r] else [] | [] \<Rightarrow> [])"

definition two_digits :: "matcher \<Rightarrow> matcher \<Rightarrow> matcher" where
  "two_digits p q s = [(10 * a + b, r2). (a, r1) \<leftarrow> p s, (b, r2) \<leftarrow> q r1]"

definition re_Y :: "(string \<times> nat) list \<Rightarrow> matcher" where
  "re_Y tab s =
     [(1000 * a + 100 * b + 10 * c + d, r4).
        (a, r1) \<leftarrow> re_digit tab s, (b, r2) \<leftarrow> re_digit tab r1,
        (c, r3) \<leftarrow> re_digit tab r2, (d, r4) \<leftarrow> re_digit tab r3]"

definition re_m :: matcher where
  "re_m s = two_digits (digit_in CHR ''1'' CHR ''1'') (digit_in CHR ''0'' CHR ''2'') s
          @ two_digits (digit_in CHR ''0'' CHR ''0'') (digit_in CHR ''1'' CHR ''9'') s
          @ digit_in CHR ''1'' CHR ''9'' s"

definition re_d :: "(string \<times> nat) list \<Rightarrow> matcher" where
  "re_d tab s = two_digits (digit_in CHR ''3'' CHR ''3'') (digit_in CHR ''0'' CHR ''1'') s
              @ two_digits (digit_in CHR ''1'' CHR ''2'') (re_digit tab) s
              @ two_digits (digit_in CHR ''0'' CHR ''0'') (digit_in CHR ''1'' CHR ''9'') s
              @ digit_in CHR ''1'' CHR ''9'' s
              @ [(v, r2). r1 \<leftarrow> literal CHR '' '' s, (v, r2) \<leftarrow> digit_in CHR ''1'' CHR ''9'' r1]"

text \<open>All matches of the whole expression: the three groups and the unconverted rest.\<close>

definition format_regex :: "(string \<times> nat) list \<Rightarrow> string \<Rightarrow> ((nat \<times> nat \<times> nat) \<times> string) list" where
  "format_regex tab s =
     [((y, m, d), r5).
        (y, r1) \<leftarrow> re_Y tab s, r2 \<leftarrow> literal CHR ''-'' r1,
        (m, r3) \<leftarrow> re_m r2, r4 \<leftarrow> literal CHR ''-'' r3,
        (d, r5) \<leftarrow> re_d tab r4]"

datatype date = Date (year: nat) (month: nat) (day: nat)

definition is_leap :: "nat \<Rightarrow> bool" where
  "is_leap y = (y mod 4 = 0 \<and> (y mod 100 \<noteq> 0 \<or> y mod 400 = 0))"

definition days_in_month :: "nat \<Rightarrow> nat \<Rightarrow> nat" where
  "days_in_month y m =
     (if m = 2 then (if is_leap y then 29 else 28)
      else if m \<in> {4, 6, 9, 11} then 30 else 31)"

text \<open>The constructor \<open>datetime(year, month, day)\<close>: \<open>None\<close> is its \<open>ValueError\<close>.\<close>

definition make_date :: "nat \<Rightarrow> nat \<Rightarrow> nat \<Rightarrow> date option" where
  "make_date y m d =
     (if 1 \<le> y \<and> y \<le> 9999 \<and> 1 \<le> m \<and> m \<le> 12 \<and> 1 \<le> d \<and> d \<le> days_in_month y m
      then Some (Date y m d) else None)"

text \<open>\<open>strptime(s, '%Y-%m-%d').date()\<close>; \<open>None\<close> is \<open>ValueError\<close>.\<close>

definition strptime :: "'a platform_scheme \<Rightarrow> string \<Rightarrow> date option" where
  "strptime sys s =
     (case format_regex (decimal_digits sys) s of
        [] \<Rightarrow> None
      | ((y, m, d), rest) # _ \<Rightarrow> if rest \<noteq> [] then None else make_date y m d)"

text \<open>
  \<open>strftime('%Y-%m-%d')\<close>: month and day with two digits; the year (between 1 and 9999
  for a date) with four digits where the C library pads it, and otherwise in decimal
  without leading zeros.
\<close>

definition digit_char :: "nat \<Rightarrow> char" where
  "digit_char n = ''0123456789'' ! (n mod 10)"

definition pad2 :: "nat \<Rightarrow> string" where
  "pad2 n = [digit_char (n div 10), digit_char n]"

definition pad4 :: "nat \<Rightarrow> string" where
  "pad4 n = [digit_char (n div 1000), digit_char (n div 100), digit_char (n div 10), digit_char n]"

definition year_text :: "'a platform_scheme \<Rightarrow> nat \<Rightarrow> string" where
  "year_text sys y = (if pads_year sys then pad4 y else dropWhile (\<lambda>c. c = CHR ''0'') (pad4 y))"

definition strftime :: "'a platform_scheme \<Rightarrow> date \<Rightarrow> string" where
  "strftime sys dt = year_text sys (year dt) @ ''-'' @ pad2 (month dt) @ ''-'' @ pad2 (day dt)"

section \<open>Tables (\<open>pandas.DataFrame\<close>)\<close>

text \<open>
  A cell holds a string (a dimension value), a number (a metric; no claim reads its
  value, integers stand for the API's numbers), the list of the response's \<open>keys\<close> field
  before it is split, or nothing (\<open>None\<close>/NaN). A table is its column labels and its rows.
\<close>

datatype cell = Str string | Num int | Lst "string list" | Null

record table =
  columns :: "string list"
  rows :: "cell list list"

text \<open>\<open>pd.DataFrame()\<close> and \<open>df.empty\<close> (an axis of length 0).\<close>

definition empty_frame :: table where
  "empty_frame = \<lparr>columns = [], rows = []\<rparr>"

definition df_empty :: "table \<Rightarrow> bool" where
  "df_empty df = (columns df = [] \<or> rows df = [])"

fun index_of :: "'a \<Rightarrow> 'a list \<Rightarrow> nat" where
  "index_of x [] = 0"
| "index_of x (y # ys) = (if x = y then 0 else Suc (index_of x ys))"

definition cell_at :: "nat \<Rightarrow> cell list \<Rightarrow> cell" where
  "cell_at i r = (if i < length r then r ! i else Null)"

text \<open>The cell of a row under the label \<open>date\<close>.\<close>

definition date_cell :: "table \<Rightarrow> cell list \<Rightarrow> cell" where
  "date_cell df r = cell_at (index_of ''date'' (columns df)) r"

text \<open>
  \<open>df[label] = values\<close>: an existing label has its cells replaced where it stands, a new
  label is appended as the last column.
\<close>

definition set_column :: "string \<Rightarrow> cell list \<Rightarrow> table \<Rightarrow> table" where
  "set_column c vs df =
     (if c \<in> set (columns df)
      then df\<lparr>rows := map2 (\<lambda>r v. map2 (\<lambda>l x. if l = c then v else x) (columns df) r) (rows df) vs\<rparr>
      else df\<lparr>columns := columns df @ [c], rows := map2 (\<lambda>r v. r @ [v]) (rows df) vs\<rparr>)"

datatype py_error = ValueError | TypeError | KeyError

text \<open>\<open>df.drop(columns=[label])\<close>: \<open>KeyError\<close> when the label is not a column.\<close>

definition drop_column :: "string \<Rightarrow> table \<Rightarrow> py_error + table" where
  "drop_column c df =
     (if c \<notin> set (columns df) then Inl KeyError
      else Inr \<lparr>columns = filter (\<lambda>l. l \<noteq> c) (columns df),
               rows = map (\<lambda>r. map snd (filter (\<lambda>(l, x). l \<noteq> c) (zip (columns df) r))) (rows df)\<rparr>)"

subsection \<open>The response of \<open>searchanalytics().query\<close> and its reshaping (lines 82 to 89)\<close>

record response_row =
  keys :: "string list"
  clicks :: int
  impressions :: int
  ctr :: int
  position :: int

text \<open>\<open>pd.DataFrame(response['rows'])\<close>: one column per field of the row dictionaries.\<close>

definition metric_labels :: "string list" where
  "metric_labels = [''clicks'', ''impressions'', ''ctr'', ''position'']"

definition frame_of_rows :: "response_row list \<Rightarrow> table" where
  "frame_of_rows rs =
     (if rs = [] then empty_frame
      else \<lparr>columns = ''keys'' # metric_labels,
            rows = map (\<lambda>r. [Lst (keys r), Num (clicks r), Num (impressions r),
                              Num (ctr r), Num (position r)]) rs\<rparr>)"

text \<open>
  \<open>pd.DataFrame(df['keys'].tolist(), index=df.index)\<close>: as many columns as the longest
  key list has entries, shorter lists padded with \<open>None\<close>. The result is given by its
  columns, left to right.
\<close>

definition frame_of_lists :: "string list list \<Rightarrow> cell list list" where
  "frame_of_lists kss =
     map (\<lambda>j. map (\<lambda>ks. if j < length ks then Str (ks ! j) else Null) kss)
         [0 ..< foldr max (map length kss) 0]"

text \<open>
  \<open>df[labels] = value\<close> (pandas \<open>_setitem_array\<close>): \<open>ValueError\<close> ("Columns must be same
  length as key") unless \<open>value\<close> has one column per label, then \<open>df[k1] = value[k2]\<close> for
  the labels and columns paired off in order.
\<close>

definition setitem_array :: "string list \<Rightarrow> cell list list \<Rightarrow> table \<Rightarrow> py_error + table" where
  "setitem_array labels val df =
     (if length val \<noteq> length labels then Inl ValueError
      else Inr (foldl (\<lambda>d (k1, col). set_column k1 col d) df (zip labels val)))"

text \<open>Lines 82 to 89 with the exceptions they can raise.\<close>

definition reshape :: "response_row list \<Rightarrow> string list \<Rightarrow> py_error + table" where
  "reshape rs dims =
     (let df = frame_of_rows rs in
      if ''keys'' \<notin> set (columns df) then Inl KeyError
      else case setitem_array dims (frame_of_lists (map keys rs)) df of
             Inl e \<Rightarrow> Inl e
           | Inr df' \<Rightarrow> drop_column ''keys'' df')"

section \<open>The world the program acts on\<close>

text \<open>
  Every line the program prints is one message, carrying the values the source
  interpolates into its text (the number after each name is the source line).
\<close>

datatype msg =
    KeyFileNotFound string \<comment> \<open>36: "Error: The service account key file was not found at '...'."\<close>
  | EnsurePathCorrect \<comment> \<open>37\<close>
  | AuthenticationError \<comment> \<open>40\<close>
  | ServiceNotInitialized \<comment> \<open>58\<close>
  | NoDataFound "string list" string string \<comment> \<open>79\<close>
  | HttpErrorOccurred \<comment> \<open>92\<close>
  | HttpErrorContent \<comment> \<open>93\<close>
  | RequestFailed \<comment> \<open>96\<close>
  | DateColumnNotFound string \<comment> \<open>104\<close>
  | Splitting string nat \<comment> \<open>110\<close>
  | SkippingInvalidDate string \<comment> \<open>126: "Skipping group with invalid date format: ..."\<close>
  | CouldNotSave cell \<comment> \<open>128\<close>
  | SavedDailyFiles string string \<comment> \<open>130\<close>
  | FailedToInitialize \<comment> \<open>162\<close>
  | Fetching string string string \<comment> \<open>167\<close>
  | NoDataReturned string \<comment> \<open>182\<close>

record request_body =
  startDate :: string
  endDate :: string
  dimensions :: "string list"
  rowLimit :: int
  startRow :: int

text \<open>
  A CSV file is its lines: \<open>to_csv(path, index=False)\<close> writes the header line with the
  column labels, then one record per row (quoting and number formatting are not modelled).
\<close>

datatype csv_line = Header "string list" | Record "cell list"

definition to_csv :: "table \<Rightarrow> csv_line list" where
  "to_csv df = Header (columns df) # map Record (rows df)"

text \<open>
  The world: the Python list objects by reference (\<open>heap\<close>, with the next free
  reference), the file system (regular files by path, directories), the lines printed,
  the requests issued to the API (site URL and body, oldest first), and the number of
  file-system calls made so far.
\<close>

record world =
  heap :: "nat \<Rightarrow> string list"
  next_ref :: nat
  files :: "string \<rightharpoonup> csv_line list"
  dirs :: "string set"
  stdout :: "msg list"
  sent :: "(string \<times> request_body) list"
  os_calls :: nat

definition print :: "msg \<Rightarrow> world \<Rightarrow> world" where
  "print m st = st\<lparr>stdout := stdout st @ [m]\<rparr>"

text \<open>
  The collaborators outside the program. The API answers the \<open>n\<close>-th request (counted
  from 0) for a site and a body with an \<open>HttpError\<close>, with another exception, or with a
  response whose \<open>rows\<close> field is absent (\<open>None\<close>) or present. The platform
  decides, at each call, whether \<open>os.makedirs\<close> and the write of \<open>to_csv\<close> raise.
  Loading the credential file and building the client raises \<open>FileNotFoundError\<close>, raises
  something else, or yields the service.
\<close>

datatype api_outcome = HttpError | OtherException | Response "response_row list option"

type_synonym service = "nat \<Rightarrow> string \<Rightarrow> request_body \<Rightarrow> api_outcome"

datatype build_outcome = FileNotFoundError | BuildException | Built service

definition tick :: "world \<Rightarrow> world" where
  "tick st = st\<lparr>os_calls := Suc (os_calls st)\<rparr>"

text \<open>\<open>os.path.join(a, b)\<close> (posixpath).\<close>

definition os_path_join :: "string \<Rightarrow> string \<Rightarrow> string" where
  "os_path_join a b =
     (if b \<noteq> [] \<and> hd b = CHR ''/'' then b
      else if a = [] \<or> last a = CHR ''/'' then a @ b
      else a @ ''/'' @ b)"

section \<open>The client: \<open>SearchConsoleAPI\<close>\<close>

record search_console_api =
  service_account_file :: string
  scopes :: "string list"
  service :: "service option"

text \<open>\<open>_authenticate\<close> (lines 28 to 41): the handle, or \<open>None\<close> after printing why.\<close>

definition authenticate ::
  "(string \<Rightarrow> string list \<Rightarrow> build_outcome) \<Rightarrow> string \<Rightarrow> string list \<Rightarrow> world
     \<Rightarrow> service option \<times> world" where
  "authenticate build file scps st =
     (case build file scps of
        Built api \<Rightarrow> (Some api, st)
      | FileNotFoundError \<Rightarrow> (None, print EnsurePathCorrect (print (KeyFileNotFound file) st))
      | BuildException \<Rightarrow> (None, print AuthenticationError st))"

text \<open>\<open>__init__\<close> (lines 16 to 26).\<close>

definition init_api ::
  "(string \<Rightarrow> string list \<Rightarrow> build_outcome) \<Rightarrow> string \<Rightarrow> string list \<Rightarrow> world
     \<Rightarrow> search_console_api \<times> world" where
  "init_api build file scps st =
     (let (handle, st1) = authenticate build file scps st
      in (\<lparr>service_account_file = file, scopes = scps, service = handle\<rparr>, st1))"

text \<open>
  \<open>execute_request\<close> (lines 43 to 97). \<open>dims_ref\<close> is the reference of the list object
  the caller passes as \<open>dimensions\<close>; line 63 appends to that object. The function
  returns a table on every path.
\<close>

definition execute_request ::
  "search_console_api \<Rightarrow> string \<Rightarrow> string \<Rightarrow> string \<Rightarrow> nat \<Rightarrow> int \<Rightarrow> world \<Rightarrow> table \<times> world" where
  "execute_request self property_uri start_date end_date dims_ref row_limit st =
     (case service self of
        None \<Rightarrow> (empty_frame, print ServiceNotInitialized st)
      | Some api \<Rightarrow>
          let st1 = (if ''date'' \<notin> set (heap st dims_ref)
                     then st\<lparr>heap := (heap st)(dims_ref := heap st dims_ref @ [''date''])\<rparr>
                     else st);
              request_body = \<lparr>startDate = start_date, endDate = end_date,
                              dimensions = heap st1 dims_ref,
                              rowLimit = row_limit, startRow = 0\<rparr>;
              st2 = st1\<lparr>sent := sent st1 @ [(property_uri, request_body)]\<rparr>
          in (case api (length (sent st1)) property_uri request_body of
                HttpError \<Rightarrow> (empty_frame, print HttpErrorContent (print HttpErrorOccurred st2))
              | OtherException \<Rightarrow> (empty_frame, print RequestFailed st2)
              | Response resp_rows \<Rightarrow>
                  (case resp_rows of
                     None \<Rightarrow>
                       (empty_frame,
                        print (NoDataFound (heap st2 dims_ref) start_date end_date) st2)
                   | Some rs \<Rightarrow>
                       (case reshape rs (dimensions request_body) of
                          Inl e \<Rightarrow> (empty_frame, print RequestFailed st2)
                        | Inr df \<Rightarrow> (df, st2)))))"

text \<open>
  Lines 62 and 63 as a function of the list's content, and the body that
  \<open>execute_request\<close> builds when it is called in the world \<open>st\<close> (lines 61 to 71).
\<close>

definition with_date :: "string list \<Rightarrow> string list" where
  "with_date ds = (if ''date'' \<in> set ds then ds else ds @ [''date''])"

definition request_for :: "world \<Rightarrow> string \<Rightarrow> string \<Rightarrow> nat \<Rightarrow> int \<Rightarrow> request_body" where
  "request_for st start_date end_date dims_ref row_limit =
     \<lparr>startDate = start_date, endDate = end_date,
      dimensions = with_date (heap st dims_ref),
      rowLimit = row_limit, startRow = 0\<rparr>"

section \<open>The writer: \<open>save_daily_csvs\<close>\<close>

text \<open>
  \<open>df.groupby('date')\<close>, iterated: the groups in ascending order of their key, numbers
  before strings, rows with a missing key left out, every group holding the rows with
  its key in their original order. pandas raises \<open>ValueError\<close> when several columns are
  labelled \<open>date\<close> and \<open>TypeError\<close> on a list as key.
\<close>

definition group_keys :: "cell list \<Rightarrow> cell list" where
  "group_keys cs =
     map Num (sort (remdups [n. Num n \<leftarrow> cs])) @ map Str (sort (remdups [s. Str s \<leftarrow> cs]))"

definition is_Lst :: "cell \<Rightarrow> bool" where
  "is_Lst c = (case c of Lst _ \<Rightarrow> True | _ \<Rightarrow> False)"

definition groupby_date :: "table \<Rightarrow> py_error + (cell \<times> table) list" where
  "groupby_date df =
     (if length (filter (\<lambda>l. l = ''date'') (columns df)) \<noteq> 1 then Inl ValueError
      else if \<exists>r \<in> set (rows df). is_Lst (date_cell df r) then Inl TypeError
      else Inr (map (\<lambda>k. (k, df\<lparr>rows := filter (\<lambda>r. date_cell df r = k) (rows df)\<rparr>))
                    (group_keys (map (date_cell df) (rows df)))))"

text \<open>
  Two invariants of pandas frames. In a flat table the labels are unique and every cell is
  a scalar; in the frame that \<open>execute_request\<close> reshapes, the rows are as long as the
  header and lists stand under the label \<open>keys\<close> only.
\<close>

definition flat_table :: "table \<Rightarrow> bool" where
  "flat_table df = (distinct (columns df) \<and> (\<forall>r \<in> set (rows df). \<forall>x \<in> set r. \<not> is_Lst x))"

definition frame_ok :: "table \<Rightarrow> bool" where
  "frame_ok df = (distinct (columns df) \<and>
     (\<forall>r \<in> set (rows df). length r = length (columns df)
         \<and> (\<forall>(l, x) \<in> set (zip (columns df) r). is_Lst x \<longrightarrow> l = ''keys'')))"

text \<open>
  The body of the loop (lines 113 to 128) for one group: \<open>strptime\<close> raises \<open>TypeError\<close>
  on a key that is not a string and \<open>ValueError\<close> on a string it cannot parse;
  \<open>os.makedirs\<close> and \<open>to_csv\<close> raise when the platform says so.
\<close>

definition daily_file :: "platform \<Rightarrow> string \<Rightarrow> string \<Rightarrow> cell \<times> table \<Rightarrow> world \<Rightarrow> world" where
  "daily_file sys report_type base_dir g st =
     (case fst g of
        Str date_str \<Rightarrow>
          (case strptime sys date_str of
             None \<Rightarrow> print (SkippingInvalidDate date_str) st
           | Some date_obj \<Rightarrow>
               let dir_path = os_path_join base_dir report_type in
               if makedirs_raises sys (os_calls st) dir_path
               then print (CouldNotSave (fst g)) (tick st)
               else
                 let st1 = (tick st)\<lparr>dirs := insert dir_path (dirs st)\<rparr>;
                     file_name = report_type @ ''_'' @ strftime sys date_obj @ ''.csv'';
                     file_path = os_path_join dir_path file_name
                 in if to_csv_raises sys (os_calls st1) file_path
                    then print (CouldNotSave (fst g)) (tick st1)
                    else (tick st1)\<lparr>files := (files st1)(file_path \<mapsto> to_csv (snd g))\<rparr>)
      | _ \<Rightarrow> print (CouldNotSave (fst g)) st)"

text \<open>
  Names for what the loop body computes: the path of the file for a date's text (lines
  117 to 121), the path a group key leads to, if any (lines 115 to 121), and a
  platform on which neither file-system call ever raises.
\<close>

definition daily_path :: "string \<Rightarrow> string \<Rightarrow> string \<Rightarrow> string" where
  "daily_path base_dir report_type date_text =
     os_path_join (os_path_join base_dir report_type) (report_type @ ''_'' @ date_text @ ''.csv'')"

definition file_of :: "platform \<Rightarrow> string \<Rightarrow> string \<Rightarrow> cell \<Rightarrow> string option" where
  "file_of sys base_dir report_type k =
     (case k of
        Str date_str \<Rightarrow>
          map_option (\<lambda>date_obj. daily_path base_dir report_type (strftime sys date_obj))
            (strptime sys date_str)
      | _ \<Rightarrow> None)"

text \<open>
  A table whose parseable dates are all written the way \<open>strftime\<close> prints them on
  the platform.
\<close>

definition canonical_dates :: "platform \<Rightarrow> table \<Rightarrow> bool" where
  "canonical_dates sys df =
     (\<forall>r \<in> set (rows df).
        case date_cell df r of
          Str s \<Rightarrow> (case strptime sys s of Some d \<Rightarrow> strftime sys d = s | None \<Rightarrow> True)
        | _ \<Rightarrow> True)"

definition never_raises :: "platform \<Rightarrow> bool" where
  "never_raises sys = (\<forall>n p. \<not> makedirs_raises sys n p \<and> \<not> to_csv_raises sys n p)"

text \<open>\<open>save_daily_csvs\<close> (lines 99 to 130); \<open>Inl\<close> is an exception that leaves the function.\<close>

definition save_daily_csvs :: "platform \<Rightarrow> table \<Rightarrow> string \<Rightarrow> string \<Rightarrow> world \<Rightarrow> py_error + world" where
  "save_daily_csvs sys df report_type base_dir st =
     (if ''date'' \<notin> set (columns df) then Inr (print (DateColumnNotFound report_type) st)
      else case groupby_date df of
             Inl e \<Rightarrow> Inl e
           | Inr grouped \<Rightarrow>
               Inr (print (SavedDailyFiles report_type base_dir)
                     (foldl (\<lambda>s g. daily_file sys report_type base_dir g s)
                        (print (Splitting report_type (length grouped)) st) grouped)))"

section \<open>The orchestrator: \<open>main\<close>\<close>

text \<open>
  The namespace \<open>argparse\<close> returns (lines 134 to 142): \<open>--output_dir\<close> and \<open>--limit\<close> have
  defaults, \<open>--limit\<close> is any integer.
\<close>

record args =
  arg_property :: string
  arg_sa_file :: string
  arg_start :: string
  arg_end :: string
  arg_output_dir :: string
  arg_limit :: int

definition parse_args ::
  "string \<Rightarrow> string \<Rightarrow> string \<Rightarrow> string \<Rightarrow> string option \<Rightarrow> int option \<Rightarrow> args" where
  "parse_args prop sa start_d end_d out lim =
     \<lparr>arg_property = prop, arg_sa_file = sa, arg_start = start_d, arg_end = end_d,
      arg_output_dir = (case out of None \<Rightarrow> ''search_console_reports'' | Some d \<Rightarrow> d),
      arg_limit = (case lim of None \<Rightarrow> 25000 | Some n \<Rightarrow> n)\<rparr>"

definition SCOPES :: "string list" where
  "SCOPES = [''https://www.googleapis.com/auth/webmasters.readonly'']"

text \<open>The literal of lines 148 to 156, in insertion order.\<close>

definition report_definitions :: "(string \<times> string list) list" where
  "report_definitions =
     [(''page_query_country_device'', [''page'', ''query'', ''country'', ''device'']),
      (''search_appearance'', [''searchAppearance'']),
      (''query_page'', [''query'', ''page'']),
      (''page'', [''page'']),
      (''query'', [''query'']),
      (''country'', [''country'']),
      (''device'', [''device''])]"

text \<open>
  A new list object, as a list display or \<open>list.copy()\<close> creates it, and the dictionary
  of line 148, whose values are such objects.
\<close>

definition new_list :: "string list \<Rightarrow> world \<Rightarrow> nat \<times> world" where
  "new_list xs st =
     (next_ref st, st\<lparr>heap := (heap st)(next_ref st := xs), next_ref := Suc (next_ref st)\<rparr>)"

fun new_dict :: "(string \<times> string list) list \<Rightarrow> world \<Rightarrow> (string \<times> nat) list \<times> world" where
  "new_dict [] st = ([], st)"
| "new_dict ((name, xs) # rest) st =
     (let (r, st1) = new_list xs st; (d, st2) = new_dict rest st1 in ((name, r) # d, st2))"

text \<open>
  The body of the loop of line 166 for one report: the query on a copy of the report's
  dimension list (lines 167 to 176), then the files (lines 179 to 182).
\<close>

definition fetch_report :: "search_console_api \<Rightarrow> args \<Rightarrow> string \<times> nat \<Rightarrow> world \<Rightarrow> table \<times> world" where
  "fetch_report sc_api a item st =
     (let report_name = fst item; dimensions_list = snd item;
          st1 = print (Fetching report_name (arg_start a) (arg_end a)) st;
          (copy, st2) = new_list (heap st1 dimensions_list) st1
      in execute_request sc_api (arg_property a) (arg_start a) (arg_end a)
           copy (arg_limit a) st2)"

definition run_report ::
  "platform \<Rightarrow> search_console_api \<Rightarrow> args \<Rightarrow> string \<times> nat \<Rightarrow> world \<Rightarrow> py_error + world" where
  "run_report sys sc_api a item st =
     (let (df, st3) = fetch_report sc_api a item st
      in if \<not> df_empty df then save_daily_csvs sys df (fst item) (arg_output_dir a) st3
         else Inr (print (NoDataReturned (fst item)) st3))"

fun run_reports ::
  "platform \<Rightarrow> search_console_api \<Rightarrow> args \<Rightarrow> (string \<times> nat) list \<Rightarrow> world \<Rightarrow> py_error + world" where
  "run_reports sys sc_api a [] st = Inr st"
| "run_reports sys sc_api a (item # rest) st =
     (case run_report sys sc_api a item st of
        Inl e \<Rightarrow> Inl e
      | Inr st1 \<Rightarrow> run_reports sys sc_api a rest st1)"

text \<open>
  \<open>main\<close> (lines 133 to 182), from the parsed arguments on. The result also gives the
  dictionary \<open>reports_to_run\<close>, so that its list objects can be read afterwards.
\<close>

definition main ::
  "(string \<Rightarrow> string list \<Rightarrow> build_outcome) \<Rightarrow> platform \<Rightarrow> args \<Rightarrow> world
     \<Rightarrow> (string \<times> nat) list \<times> (py_error + world)" where
  "main build sys a st =
     (let (reports_to_run, st1) = new_dict report_definitions st;
          (sc_api, st2) = init_api build (arg_sa_file a) SCOPES st1
      in if service sc_api = None then (reports_to_run, Inr (print FailedToInitialize st2))
         else (reports_to_run, run_reports sys sc_api a reports_to_run st2))"

section \<open>Concrete inputs\<close>

text \<open>
  A fresh world; a platform with glibc's year, on which no file-system call fails, and
  which knows, beyond ASCII, the Arabic-Indic digits U+0660 to U+0669 (every date of the
  examples below is ASCII, and the table is consulted for other bytes only); the command
  line \<open>--property sc-domain:example.com --sa_file key.json --start 2024-01-01 --end 2024-01-31\<close>;
  and a machine on which \<open>key.json\<close> does not exist.
\<close>

definition world0 :: world where
  "world0 = \<lparr>heap = (\<lambda>_. []), next_ref = 0, files = Map.empty, dirs = {}, stdout = [],
             sent = [], os_calls = 0\<rparr>"

definition arabic_indic_digits :: "(string \<times> nat) list" where
  "arabic_indic_digits = map (\<lambda>n. ([CHR 0xD9, char_of (160 + n)], n)) [0 ..< 10]"

definition os_ok :: platform where
  "os_ok = \<lparr>decimal_digits = arabic_indic_digits, pads_year = False,
            makedirs_raises = (\<lambda>_ _. False), to_csv_raises = (\<lambda>_ _. False)\<rparr>"

definition args0 :: args where
  "args0 = parse_args ''sc-domain:example.com'' ''key.json'' ''2024-01-01'' ''2024-01-31'' None None"


text \<open>An API that answers every request with a response without \<open>rows\<close>.\<close>

definition api_no_rows :: service where
  "api_no_rows n url body = Response None"

definition client_no_rows :: search_console_api where
  "client_no_rows = \<lparr>service_account_file = ''key.json'', scopes = SCOPES,
                      service = Some api_no_rows\<rparr>"

text \<open>
  A world in which the list object 0 is \<open>['date', 'date']\<close>, one in which it is
  \<open>['query']\<close>, and a run with \<open>--limit 50000\<close> on a machine where the client is built.
\<close>

definition world_date_twice :: world where
  "world_date_twice = world0\<lparr>heap := (heap world0)(0 := [''date'', ''date'']), next_ref := 1\<rparr>"

definition world_query :: world where
  "world_query = world0\<lparr>heap := (heap world0)(0 := [''query'']), next_ref := 1\<rparr>"

definition args_over_limit :: args where
  "args_over_limit =
     parse_args ''sc-domain:example.com'' ''key.json'' ''2024-01-01'' ''2024-01-31'' None (Some 50000)"

definition build_no_rows :: "string \<Rightarrow> string list \<Rightarrow> build_outcome" where
  "build_no_rows file scps = Built api_no_rows"

text \<open>
  An API that answers every request with one row for the query \<open>shoes\<close> on 2024-01-01.
\<close>

definition api_one_row :: service where
  "api_one_row n url body =
     Response (Some [\<lparr>keys = [''shoes'', ''2024-01-01''], clicks = 1, impressions = 2,
                      ctr = 3, position = 4\<rparr>])"

definition client_one_row :: search_console_api where
  "client_one_row = \<lparr>service_account_file = ''key.json'', scopes = SCOPES,
                      service = Some api_one_row\<rparr>"

text \<open>
  Two tables with a \<open>date\<close> column: one with the dates 2024-01-01 and 2024-01-02, and
  one in which the fifth of January 2024 is written in two ways.
\<close>

definition table_two_days :: table where
  "table_two_days =
     \<lparr>columns = [''clicks'', ''date''],
      rows = [[Num 1, Str ''2024-01-01''], [Num 2, Str ''2024-01-02''],
              [Num 3, Str ''2024-01-01'']]\<rparr>"

definition table_two_spellings :: table where
  "table_two_spellings =
     \<lparr>columns = [''clicks'', ''date''],
      rows = [[Num 1, Str ''2024-01-05''], [Num 2, Str ''2024-1-5'']]\<rparr>"


definition table_unpadded :: table where
  "table_unpadded = \<lparr>columns = [''clicks'', ''date''], rows = [[Num 2, Str ''2024-1-5'']]\<rparr>"

text \<open>
  A table in which the fifteenth of January 2024 is written once in ASCII and once with
  the Arabic-Indic digit five (U+0665, the bytes D9 A5) as its last character.
\<close>

definition table_two_scripts :: table where
  "table_two_scripts =
     \<lparr>columns = [''clicks'', ''date''],
      rows = [[Num 1, Str ''2024-01-15''],
              [Num 2, Str (''2024-01-1'' @ [CHR 0xD9, CHR 0xA5])]]\<rparr>"

definition table_without_date :: table where
  "table_without_date = \<lparr>columns = [''clicks'', ''query''], rows = [[Num 3, Str ''shoes'']]\<rparr>"

section \<open>Properties\<close>

subsection \<open>Creating list objects touches neither the file system nor the API\<close>

lemma new_dict_frame:
  "new_dict ds st = (d, st') \<Longrightarrow>
     files st' = files st \<and> dirs st' = dirs st \<and> stdout st' = stdout st
     \<and> sent st' = sent st \<and> os_calls st' = os_calls st"
proof (induction ds arbitrary: st d st')
  case Nil
  then show ?case by simp
next
  case (Cons x ds)
  obtain name xs where x: "x = (name, xs)" by (cases x)
  obtain r st1 where n: "new_list xs st = (r, st1)" by (cases "new_list xs st")
  obtain d2 st2 where m: "new_dict ds st1 = (d2, st2)" by (cases "new_dict ds st1")
  from Cons.prems x n m have "st' = st2" by simp
  moreover from n have "files st1 = files st \<and> dirs st1 = dirs st \<and> stdout st1 = stdout st
     \<and> sent st1 = sent st \<and> os_calls st1 = os_calls st"
    by (auto simp: new_list_def)
  ultimately show ?case using Cons.IH [OF m] by simp
qed

subsection \<open>The table that \<open>execute_request\<close> builds is flat\<close>

lemma zip_map2_same:
  "zip xs (map2 f xs ys) = map (\<lambda>(l, x). (l, f l x)) (zip xs ys)"
  by (induction xs arbitrary: ys) (auto split: list.splits simp: zip_Cons1)

lemma set_column_ok:
  assumes "frame_ok df" "\<forall>v \<in> set vs. \<not> is_Lst v"
  shows "frame_ok (set_column c vs df)"
proof (cases "c \<in> set (columns df)")
  case True
  have "length r' = length (columns df) \<and> (\<forall>(l, x) \<in> set (zip (columns df) r'). is_Lst x \<longrightarrow> l = ''keys'')"
    if "r' \<in> set (map2 (\<lambda>r v. map2 (\<lambda>l x. if l = c then v else x) (columns df) r) (rows df) vs)" for r'
  proof -
    from that obtain r v where rv: "(r, v) \<in> set (zip (rows df) vs)"
      and r': "r' = map2 (\<lambda>l x. if l = c then v else x) (columns df) r" by auto
    from rv have r: "r \<in> set (rows df)" and v: "v \<in> set vs" by (auto dest: set_zip_leftD set_zip_rightD)
    from r assms(1) have len: "length r = length (columns df)"
      and old: "\<forall>(l, x) \<in> set (zip (columns df) r). is_Lst x \<longrightarrow> l = ''keys''"
      by (auto simp: frame_ok_def)
    from v assms(2) have nv: "\<not> is_Lst v" by simp
    have "length r' = length (columns df)" using len r' by simp
    moreover have "\<forall>(l, x) \<in> set (zip (columns df) r'). is_Lst x \<longrightarrow> l = ''keys''"
      unfolding r' zip_map2_same using old nv by (fastforce split: if_splits)
    ultimately show ?thesis by simp
  qed
  with True assms(1) show ?thesis by (simp add: frame_ok_def set_column_def)
next
  case False
  have "length r' = Suc (length (columns df)) \<and> (\<forall>(l, x) \<in> set (zip (columns df @ [c]) r'). is_Lst x \<longrightarrow> l = ''keys'')"
    if "r' \<in> set (map2 (\<lambda>r v. r @ [v]) (rows df) vs)" for r'
  proof -
    from that obtain r v where rv: "(r, v) \<in> set (zip (rows df) vs)"
      and r': "r' = r @ [v]" by auto
    from rv have r: "r \<in> set (rows df)" and v: "v \<in> set vs" by (auto dest: set_zip_leftD set_zip_rightD)
    from r assms(1) have len: "length r = length (columns df)"
      and old: "\<forall>(l, x) \<in> set (zip (columns df) r). is_Lst x \<longrightarrow> l = ''keys''"
      by (auto simp: frame_ok_def)
    from v assms(2) have nv: "\<not> is_Lst v" by simp
    show ?thesis using len old nv by (simp add: r')
  qed
  with False assms(1) show ?thesis by (simp add: frame_ok_def set_column_def)
qed

lemma foldl_set_column_ok:
  assumes "frame_ok df" "\<forall>(k, col) \<in> set kvs. \<forall>v \<in> set col. \<not> is_Lst v"
  shows "frame_ok (foldl (\<lambda>d (k1, col). set_column k1 col d) df kvs)"
  using assms
proof (induction kvs arbitrary: df)
  case Nil
  then show ?case by simp
next
  case (Cons kv kvs)
  obtain k col where kv: "kv = (k, col)" by (cases kv)
  from Cons.prems kv have "frame_ok (set_column k col df)" by (intro set_column_ok) auto
  with Cons.IH [of "set_column k col df"] Cons.prems(2) kv show ?case by simp
qed

lemma set_column_columns:
  "columns (set_column c vs df) = (if c \<in> set (columns df) then columns df else columns df @ [c])"
  by (simp add: set_column_def)

lemma foldl_set_column_labels:
  "set (columns (foldl (\<lambda>d (k1, col). set_column k1 col d) df kvs)) = set (columns df) \<union> fst ` set kvs"
proof (induction kvs arbitrary: df)
  case Nil
  then show ?case by simp
next
  case (Cons kv kvs)
  obtain k col where kv: "kv = (k, col)" by (cases kv)
  show ?case using Cons.IH [of "set_column k col df"] by (auto simp: kv set_column_columns)
qed

lemma foldl_set_column_new_labels:
  assumes "distinct (map fst kvs)" "fst ` set kvs \<inter> set (columns df) = {}"
  shows "columns (foldl (\<lambda>d (k1, col). set_column k1 col d) df kvs) = columns df @ map fst kvs"
  using assms
proof (induction kvs arbitrary: df)
  case Nil
  then show ?case by simp
next
  case (Cons kv kvs)
  obtain k col where kv: "kv = (k, col)" by (cases kv)
  from Cons.prems kv have 1: "columns (set_column k col df) = columns df @ [k]"
    by (auto simp: set_column_columns)
  from Cons.prems kv have "distinct (map fst kvs)"
    and "fst ` set kvs \<inter> set (columns (set_column k col df)) = {}"
    by (auto simp: 1)
  from Cons.IH [OF this] show ?case by (simp add: kv 1)
qed

lemma frame_of_lists_cells:
  "\<forall>col \<in> set (frame_of_lists kss). \<forall>v \<in> set col. \<not> is_Lst v"
  by (auto simp: frame_of_lists_def is_Lst_def)

lemma frame_of_rows_ok: "frame_ok (frame_of_rows rs)"
  by (auto simp: frame_of_rows_def frame_ok_def empty_frame_def metric_labels_def is_Lst_def)


lemma drop_keys_flat:
  assumes "frame_ok d" "drop_column ''keys'' d = Inr df"
  shows "flat_table df \<and> columns df = filter (\<lambda>l. l \<noteq> ''keys'') (columns d)
         \<and> length (rows df) = length (rows d)"
proof -
  from assms(2) have df: "df = \<lparr>columns = filter (\<lambda>l. l \<noteq> ''keys'') (columns d),
       rows = map (\<lambda>r. map snd (filter (\<lambda>(l, x). l \<noteq> ''keys'') (zip (columns d) r))) (rows d)\<rparr>"
    by (simp add: drop_column_def split: if_splits)
  have "\<not> is_Lst x" if "r \<in> set (rows d)"
    and "x \<in> set (map snd (filter (\<lambda>(l, x). l \<noteq> ''keys'') (zip (columns d) r)))" for r x
  proof -
    from that(2) obtain l where "(l, x) \<in> set (zip (columns d) r)" "l \<noteq> ''keys''" by auto
    with assms(1) that(1) show ?thesis by (auto simp: frame_ok_def)
  qed
  with assms(1) show ?thesis by (auto simp: df flat_table_def frame_ok_def)
qed

lemma reshape_Inr:
  assumes "reshape rs dims = Inr df"
  shows "rs \<noteq> [] \<and> length (frame_of_lists (map keys rs)) = length dims
       \<and> drop_column ''keys''
            (foldl (\<lambda>d (k1, col). set_column k1 col d) (frame_of_rows rs)
               (zip dims (frame_of_lists (map keys rs)))) = Inr df"
  using assms
  by (auto simp: reshape_def Let_def setitem_array_def frame_of_rows_def empty_frame_def
           split: if_splits sum.splits)

lemma reshape_flat:
  assumes "reshape rs dims = Inr df"
  shows "flat_table df \<and> set dims - {''keys''} \<subseteq> set (columns df)"
proof -
  let ?kvs = "zip dims (frame_of_lists (map keys rs))"
  let ?d = "foldl (\<lambda>d (k1, col). set_column k1 col d) (frame_of_rows rs) ?kvs"
  from reshape_Inr [OF assms] have len: "length (frame_of_lists (map keys rs)) = length dims"
    and dr: "drop_column ''keys'' ?d = Inr df" by simp_all
  have "\<forall>(k, col) \<in> set ?kvs. \<forall>v \<in> set col. \<not> is_Lst v"
    using frame_of_lists_cells [of "map keys rs"] by (auto dest: set_zip_rightD)
  then have ok: "frame_ok ?d" by (intro foldl_set_column_ok frame_of_rows_ok)
  from len have "fst ` set ?kvs = set dims"
    by (metis length_map list.set_map map_fst_zip)
  then have "set dims \<subseteq> set (columns ?d)" by (simp add: foldl_set_column_labels)
  with drop_keys_flat [OF ok dr] show ?thesis by auto
qed

lemma filter_eq_distinct:
  "distinct xs \<Longrightarrow> x \<in> set xs \<Longrightarrow> length (filter (\<lambda>l. l = x) xs) = 1"
  by (induction xs) (auto simp: filter_empty_conv)

lemma date_cell_scalar:
  "\<forall>x \<in> set r. \<not> is_Lst x \<Longrightarrow> \<not> is_Lst (date_cell df r)"
  by (auto simp: date_cell_def cell_at_def is_Lst_def)

lemma groupby_date_flat:
  assumes "flat_table df" "''date'' \<in> set (columns df)"
  shows "groupby_date df
           = Inr (map (\<lambda>k. (k, df\<lparr>rows := filter (\<lambda>r. date_cell df r = k) (rows df)\<rparr>))
                      (group_keys (map (date_cell df) (rows df))))"
  using assms filter_eq_distinct [of "columns df" "''date''"]
  by (auto simp: groupby_date_def flat_table_def date_cell_scalar)


subsection \<open>What \<open>execute_request\<close> changes\<close>

lemma execute_request_frame:
  "execute_request self u s e r l st = (df, st') \<Longrightarrow>
     files st' = files st \<and> dirs st' = dirs st \<and> os_calls st' = os_calls st
     \<and> next_ref st' = next_ref st \<and> (\<forall>q. q \<noteq> r \<longrightarrow> heap st' q = heap st q)"
  by (auto simp: execute_request_def print_def Let_def
           split: option.splits api_outcome.splits sum.splits if_splits)

lemma execute_request_sent:
  "service self = Some api \<Longrightarrow>
   sent (snd (execute_request self u s e r l st)) = sent st @ [(u, request_for st s e r l)]"
  by (auto simp: execute_request_def print_def Let_def request_for_def with_date_def
           split: option.splits api_outcome.splits sum.splits if_splits)

lemma execute_request_sent_None:
  "service self = None \<Longrightarrow> sent (snd (execute_request self u s e r l st)) = sent st"
  by (auto simp: execute_request_def print_def)

lemma execute_request_heap:
  "service self = Some api \<Longrightarrow>
   heap (snd (execute_request self u s e r l st)) r = dimensions (request_for st s e r l)"
  by (auto simp: execute_request_def print_def Let_def request_for_def with_date_def
           split: option.splits api_outcome.splits sum.splits if_splits)

lemma execute_request_table:
  "fst (execute_request self u s e r l st) = empty_frame
   \<or> (\<exists>api rs. service self = Some api
         \<and> api (length (sent st)) u (request_for st s e r l) = Response (Some rs)
         \<and> reshape rs (dimensions (request_for st s e r l))
             = Inr (fst (execute_request self u s e r l st)))"
  by (auto simp: execute_request_def print_def Let_def request_for_def with_date_def
           split: option.splits api_outcome.splits sum.splits if_splits)

lemma reshape_Nil: "reshape [] dims = Inl KeyError"
  by (simp add: reshape_def frame_of_rows_def empty_frame_def)

lemma execute_request_failure:
  assumes "service self = None
     \<or> (\<exists>api. service self = Some api
           \<and> api (length (sent st)) u (request_for st s e r l)
               \<in> {HttpError, OtherException, Response None, Response (Some [])})"
  shows "fst (execute_request self u s e r l st) = empty_frame"
  using assms
  by (auto simp: execute_request_def print_def Let_def request_for_def with_date_def reshape_Nil
           split: option.splits api_outcome.splits sum.splits if_splits)

lemma date_in_request: "''date'' \<in> set (dimensions (request_for st s e r l))"
  by (simp add: request_for_def with_date_def)

lemma execute_request_flat:
  "df_empty (fst (execute_request self u s e r l st))
   \<or> (flat_table (fst (execute_request self u s e r l st))
       \<and> ''date'' \<in> set (columns (fst (execute_request self u s e r l st))))"
  using execute_request_table [of self u s e r l st] reshape_flat date_in_request [of st s e r l]
  by (fastforce simp: df_empty_def empty_frame_def)

subsection \<open>What the writer leaves alone\<close>

lemma daily_file_frame:
  "heap (daily_file sys rt base g st) = heap st
   \<and> next_ref (daily_file sys rt base g st) = next_ref st
   \<and> sent (daily_file sys rt base g st) = sent st"
  by (auto simp: daily_file_def print_def tick_def Let_def split: cell.splits option.splits)

lemma daily_files_frame:
  "heap (foldl (\<lambda>s g. daily_file sys rt base g s) st gs) = heap st
   \<and> next_ref (foldl (\<lambda>s g. daily_file sys rt base g s) st gs) = next_ref st
   \<and> sent (foldl (\<lambda>s g. daily_file sys rt base g s) st gs) = sent st"
  by (induction gs arbitrary: st) (simp_all add: daily_file_frame)

lemma save_daily_csvs_frame:
  "save_daily_csvs sys df rt base st = Inr st' \<Longrightarrow>
     heap st' = heap st \<and> next_ref st' = next_ref st \<and> sent st' = sent st"
  by (auto simp: save_daily_csvs_def print_def daily_files_frame split: if_splits sum.splits)

lemma save_daily_csvs_flat:
  "flat_table df \<Longrightarrow> \<exists>st'. save_daily_csvs sys df rt base st = Inr st'"
  by (cases "''date'' \<in> set (columns df)") (simp_all add: save_daily_csvs_def groupby_date_flat)


subsection \<open>One report, and the loop over the reports\<close>

lemma fetch_report_effect:
  assumes "service sc_api = Some api" "fetch_report sc_api a item st = (df, st3)"
  shows "files st3 = files st \<and> dirs st3 = dirs st \<and> os_calls st3 = os_calls st
       \<and> next_ref st3 = Suc (next_ref st)
       \<and> (\<forall>q. q \<noteq> next_ref st \<longrightarrow> heap st3 q = heap st q)
       \<and> heap st3 (next_ref st) = with_date (heap st (snd item))
       \<and> sent st3 = sent st @ [(arg_property a,
            \<lparr>startDate = arg_start a, endDate = arg_end a,
             dimensions = with_date (heap st (snd item)),
             rowLimit = arg_limit a, startRow = 0\<rparr>)]
       \<and> (df_empty df \<or> flat_table df \<and> ''date'' \<in> set (columns df))"
proof -
  let ?st1 = "print (Fetching (fst item) (arg_start a) (arg_end a)) st"
  let ?st2 = "snd (new_list (heap ?st1 (snd item)) ?st1)"
  let ?r = "next_ref st"
  have ex: "execute_request sc_api (arg_property a) (arg_start a) (arg_end a) ?r (arg_limit a) ?st2
              = (df, st3)"
    using assms(2) by (simp add: fetch_report_def Let_def new_list_def print_def)
  have st2: "files ?st2 = files st" "dirs ?st2 = dirs st" "os_calls ?st2 = os_calls st"
    "next_ref ?st2 = Suc (next_ref st)" "sent ?st2 = sent st"
    "heap ?st2 = (heap st)(?r := heap st (snd item))"
    by (simp_all add: new_list_def print_def)
  from execute_request_frame [OF ex] st2
  have 1: "files st3 = files st \<and> dirs st3 = dirs st \<and> os_calls st3 = os_calls st
       \<and> next_ref st3 = Suc (next_ref st) \<and> (\<forall>q. q \<noteq> ?r \<longrightarrow> heap st3 q = heap st q)"
    by simp
  have rf: "request_for ?st2 (arg_start a) (arg_end a) ?r (arg_limit a)
        = \<lparr>startDate = arg_start a, endDate = arg_end a,
             dimensions = with_date (heap st (snd item)),
             rowLimit = arg_limit a, startRow = 0\<rparr>"
    by (simp add: request_for_def st2)
  from execute_request_sent [OF assms(1), of "arg_property a" "arg_start a" "arg_end a" ?r "arg_limit a" ?st2]
  have 2: "sent st3 = sent st @ [(arg_property a,
            \<lparr>startDate = arg_start a, endDate = arg_end a,
             dimensions = with_date (heap st (snd item)),
             rowLimit = arg_limit a, startRow = 0\<rparr>)]"
    by (simp add: ex rf st2)
  from execute_request_heap [OF assms(1), of "arg_property a" "arg_start a" "arg_end a" ?r "arg_limit a" ?st2]
  have 3: "heap st3 ?r = with_date (heap st (snd item))"
    by (simp add: ex rf)
  from execute_request_flat [of sc_api "arg_property a" "arg_start a" "arg_end a" ?r "arg_limit a" ?st2]
  have 4: "df_empty df \<or> flat_table df \<and> ''date'' \<in> set (columns df)"
    by (simp add: ex)
  from 1 2 3 4 show ?thesis by simp
qed

lemma run_report_effect:
  assumes "service sc_api = Some api"
  shows "\<exists>st'. run_report sys sc_api a item st = Inr st'
       \<and> next_ref st' = Suc (next_ref st)
       \<and> (\<forall>q. q \<noteq> next_ref st \<longrightarrow> heap st' q = heap st q)
       \<and> sent st' = sent st @ [(arg_property a,
            \<lparr>startDate = arg_start a, endDate = arg_end a,
             dimensions = with_date (heap st (snd item)),
             rowLimit = arg_limit a, startRow = 0\<rparr>)]"
proof -
  obtain df st3 where f: "fetch_report sc_api a item st = (df, st3)"
    by (cases "fetch_report sc_api a item st")
  note e = fetch_report_effect [OF assms f]
  show ?thesis
  proof (cases "df_empty df")
    case True
    then have "run_report sys sc_api a item st = Inr (print (NoDataReturned (fst item)) st3)"
      by (simp add: run_report_def f)
    with e show ?thesis by (simp add: print_def)
  next
    case False
    with e have "flat_table df" by simp
    from save_daily_csvs_flat [OF this]
    obtain st' where s: "save_daily_csvs sys df (fst item) (arg_output_dir a) st3 = Inr st'"
      by blast
    with False have "run_report sys sc_api a item st = Inr st'"
      by (simp add: run_report_def f)
    with e save_daily_csvs_frame [OF s] show ?thesis by simp
  qed
qed

lemma run_reports_effect:
  assumes "service sc_api = Some api" "\<forall>item \<in> set items. snd item < next_ref st"
  shows "\<exists>st'. run_reports sys sc_api a items st = Inr st'
       \<and> next_ref st' = next_ref st + length items
       \<and> (\<forall>q < next_ref st. heap st' q = heap st q)
       \<and> map snd (sent st') = map snd (sent st) @
            map (\<lambda>item. \<lparr>startDate = arg_start a, endDate = arg_end a,
                          dimensions = with_date (heap st (snd item)),
                          rowLimit = arg_limit a, startRow = 0\<rparr>) items"
  using assms(2)
proof (induction items arbitrary: st)
  case Nil
  then show ?case by simp
next
  case (Cons item items)
  from run_report_effect [OF assms(1), of sys a item st]
  obtain st1 where r: "run_report sys sc_api a item st = Inr st1"
    and n: "next_ref st1 = Suc (next_ref st)"
    and h: "\<forall>q. q \<noteq> next_ref st \<longrightarrow> heap st1 q = heap st q"
    and s: "sent st1 = sent st @ [(arg_property a,
            \<lparr>startDate = arg_start a, endDate = arg_end a,
             dimensions = with_date (heap st (snd item)),
             rowLimit = arg_limit a, startRow = 0\<rparr>)]"
    by blast
  from Cons.prems n have "\<forall>item \<in> set items. snd item < next_ref st1" by auto
  from Cons.IH [OF this]
  obtain st' where rs: "run_reports sys sc_api a items st1 = Inr st'"
    and n': "next_ref st' = next_ref st1 + length items"
    and h': "\<forall>q < next_ref st1. heap st' q = heap st1 q"
    and s': "map snd (sent st') = map snd (sent st1) @
            map (\<lambda>item. \<lparr>startDate = arg_start a, endDate = arg_end a,
                          dimensions = with_date (heap st1 (snd item)),
                          rowLimit = arg_limit a, startRow = 0\<rparr>) items"
    by blast
  have hh: "heap st1 (snd i) = heap st (snd i)" if "i \<in> set items" for i
    using that Cons.prems h by auto
  have "run_reports sys sc_api a (item # items) st = Inr st'" by (simp add: r rs)
  moreover have "next_ref st' = next_ref st + length (item # items)" by (simp add: n n')
  moreover have "\<forall>q < next_ref st. heap st' q = heap st q" using h h' n by auto
  moreover have "map snd (sent st') = map snd (sent st) @
            map (\<lambda>item. \<lparr>startDate = arg_start a, endDate = arg_end a,
                          dimensions = with_date (heap st (snd item)),
                          rowLimit = arg_limit a, startRow = 0\<rparr>) (item # items)"
    using s' s hh by simp
  ultimately show ?case by blast
qed

lemma new_dict_heap:
  "new_dict ds st = (d, st') \<Longrightarrow>
     map fst d = map fst ds \<and> map (\<lambda>item. heap st' (snd item)) d = map snd ds
     \<and> (\<forall>item \<in> set d. snd item < next_ref st')
     \<and> next_ref st \<le> next_ref st' \<and> (\<forall>q < next_ref st. heap st' q = heap st q)"
proof (induction ds arbitrary: st d st')
  case Nil
  then show ?case by simp
next
  case (Cons x ds)
  obtain name xs where x: "x = (name, xs)" by (cases x)
  let ?st1 = "snd (new_list xs st)"
  obtain d2 st2 where m: "new_dict ds ?st1 = (d2, st2)" by (cases "new_dict ds ?st1")
  from Cons.prems x m have d: "d = (name, next_ref st) # d2" and st': "st' = st2"
    by (simp_all add: new_list_def)
  have n1: "next_ref ?st1 = Suc (next_ref st)" and h1: "heap ?st1 = (heap st)(next_ref st := xs)"
    by (simp_all add: new_list_def)
  from Cons.IH [OF m] n1 h1 show ?case
    by (auto simp: d st' x)
qed


lemma main_effect:
  assumes "build (arg_sa_file a) SCOPES = Built api"
  shows "\<exists>st'. snd (main build sys a st) = Inr st'
       \<and> map fst (fst (main build sys a st)) = map fst report_definitions
       \<and> map (\<lambda>item. heap st' (snd item)) (fst (main build sys a st)) = map snd report_definitions
       \<and> map snd (sent st') = map snd (sent st) @
            map (\<lambda>item. \<lparr>startDate = arg_start a, endDate = arg_end a,
                          dimensions = with_date (snd item),
                          rowLimit = arg_limit a, startRow = 0\<rparr>) report_definitions"
proof -
  obtain d st1 where nd: "new_dict report_definitions st = (d, st1)"
    by (cases "new_dict report_definitions st")
  note fr = new_dict_frame [OF nd] and hp = new_dict_heap [OF nd]
  let ?api = "\<lparr>service_account_file = arg_sa_file a, scopes = SCOPES, service = Some api\<rparr>"
  have m: "main build sys a st = (d, run_reports sys ?api a d st1)"
    using assms by (simp add: main_def nd init_api_def authenticate_def)
  from hp have "\<forall>item \<in> set d. snd item < next_ref st1" by simp
  from run_reports_effect [of ?api api d st1 sys a, OF _ this]
  obtain st' where r: "run_reports sys ?api a d st1 = Inr st'"
    and h: "\<forall>q < next_ref st1. heap st' q = heap st1 q"
    and s: "map snd (sent st') = map snd (sent st1) @
            map (\<lambda>item. \<lparr>startDate = arg_start a, endDate = arg_end a,
                          dimensions = with_date (heap st1 (snd item)),
                          rowLimit = arg_limit a, startRow = 0\<rparr>) d"
    by auto
  have 1: "map (\<lambda>item. heap st' (snd item)) d = map snd report_definitions"
    using hp h by (metis (no_types, lifting) map_eq_conv)
  have "map (\<lambda>item. \<lparr>startDate = arg_start a, endDate = arg_end a,
                          dimensions = with_date (heap st1 (snd item)),
                          rowLimit = arg_limit a, startRow = 0\<rparr>) d
      = map (\<lambda>ds. \<lparr>startDate = arg_start a, endDate = arg_end a,
                          dimensions = with_date ds,
                          rowLimit = arg_limit a, startRow = 0\<rparr>) (map (\<lambda>item. heap st1 (snd item)) d)"
    by (simp add: comp_def)
  also have "\<dots> = map (\<lambda>item. \<lparr>startDate = arg_start a, endDate = arg_end a,
                          dimensions = with_date (snd item),
                          rowLimit = arg_limit a, startRow = 0\<rparr>) report_definitions"
    using hp by (simp add: comp_def)
  finally have 2: "map snd (sent st') = map snd (sent st) @
            map (\<lambda>item. \<lparr>startDate = arg_start a, endDate = arg_end a,
                          dimensions = with_date (snd item),
                          rowLimit = arg_limit a, startRow = 0\<rparr>) report_definitions"
    using s fr by simp
  from m r 1 2 hp show ?thesis by simp
qed


lemma main_not_built:
  assumes "\<forall>api. build (arg_sa_file a) SCOPES \<noteq> Built api"
  shows "\<exists>st'. snd (main build sys a st) = Inr st' \<and> sent st' = sent st"
proof -
  obtain d st1 where nd: "new_dict report_definitions st = (d, st1)"
    by (cases "new_dict report_definitions st")
  note fr = new_dict_frame [OF nd]
  from assms show ?thesis
    by (cases "build (arg_sa_file a) SCOPES")
       (simp_all add: main_def nd init_api_def authenticate_def print_def fr)
qed

lemma count_with_date:
  "count_list (with_date ds) ''date'' = max 1 (count_list ds ''date'')"
proof (cases "''date'' \<in> set ds")
  case True
  then have "count_list ds ''date'' \<noteq> 0" by (simp add: count_list_0_iff)
  with True show ?thesis by (simp add: with_date_def)
next
  case False
  then have "count_list ds ''date'' = 0" by (simp add: count_list_0_iff)
  with False show ?thesis by (simp add: with_date_def)
qed

lemma fetch_report_fs:
  "fetch_report sc_api a item st = (df, st3) \<Longrightarrow>
     files st3 = files st \<and> dirs st3 = dirs st \<and> os_calls st3 = os_calls st"
proof -
  assume f: "fetch_report sc_api a item st = (df, st3)"
  let ?st1 = "print (Fetching (fst item) (arg_start a) (arg_end a)) st"
  let ?st2 = "snd (new_list (heap ?st1 (snd item)) ?st1)"
  have ex: "execute_request sc_api (arg_property a) (arg_start a) (arg_end a) (next_ref st)
              (arg_limit a) ?st2 = (df, st3)"
    using f by (simp add: fetch_report_def Let_def new_list_def print_def)
  from execute_request_frame [OF ex] show ?thesis by (simp add: new_list_def print_def)
qed

lemma main_row_limits:
  "\<exists>st'. snd (main build sys a st) = Inr st'
     \<and> map (rowLimit \<circ> snd) (sent st')
         = map (rowLimit \<circ> snd) (sent st)
           @ replicate (case build (arg_sa_file a) SCOPES of
                          Built api \<Rightarrow> length report_definitions | _ \<Rightarrow> 0) (arg_limit a)"
proof (cases "\<exists>api. build (arg_sa_file a) SCOPES = Built api")
  case True
  then obtain api where b: "build (arg_sa_file a) SCOPES = Built api" by blast
  from b main_effect [where build = build and a = a and api = api and sys = sys and st = st]
  obtain st' where m: "snd (main build sys a st) = Inr st'"
    and s: "map snd (sent st') = map snd (sent st) @
            map (\<lambda>item. \<lparr>startDate = arg_start a, endDate = arg_end a,
                          dimensions = with_date (snd item),
                          rowLimit = arg_limit a, startRow = 0\<rparr>) report_definitions"
    by blast
  have "map (rowLimit \<circ> snd) (sent st') = map rowLimit (map snd (sent st'))" by simp
  also have "\<dots> = map (rowLimit \<circ> snd) (sent st) @ replicate (length report_definitions) (arg_limit a)"
    unfolding s by (simp add: comp_def map_replicate_const)
  finally show ?thesis using m b by simp
next
  case False
  then have "\<forall>api. build (arg_sa_file a) SCOPES \<noteq> Built api" by blast
  from main_not_built [where build = build and a = a and sys = sys and st = st] this
  show ?thesis by (cases "build (arg_sa_file a) SCOPES") auto
qed

subsection \<open>Columns of the reshaped table and of the files\<close>

lemma reshape_columns:
  assumes "reshape rs dims = Inr df" "distinct dims" "set dims \<inter> set (''keys'' # metric_labels) = {}"
  shows "columns df = metric_labels @ dims"
proof -
  let ?kvs = "zip dims (frame_of_lists (map keys rs))"
  let ?d = "foldl (\<lambda>d (k1, col). set_column k1 col d) (frame_of_rows rs) ?kvs"
  from reshape_Inr [OF assms(1)] have ne: "rs \<noteq> []"
    and len: "length (frame_of_lists (map keys rs)) = length dims"
    and dr: "drop_column ''keys'' ?d = Inr df" by simp_all
  from len have f: "map fst ?kvs = dims" by simp
  from ne have c0: "columns (frame_of_rows rs) = ''keys'' # metric_labels"
    by (simp add: frame_of_rows_def)
  have "columns ?d = columns (frame_of_rows rs) @ map fst ?kvs"
    using assms(2,3) f c0 by (intro foldl_set_column_new_labels) (simp_all flip: set_map)
  then have "columns ?d = (''keys'' # metric_labels) @ dims" by (simp add: f c0)
  moreover from dr have "columns df = filter (\<lambda>l. l \<noteq> ''keys'') (columns ?d)"
    by (auto simp: drop_column_def split: if_splits)
  moreover have "filter (\<lambda>l. l \<noteq> ''keys'') dims = dims"
    using assms(3) by (auto simp: filter_id_conv)
  ultimately show ?thesis by (simp add: metric_labels_def)
qed

lemma daily_file_header:
  assumes "columns (snd g) = cols"
  shows "files (daily_file sys rt base g st) p = files st p
       \<or> (\<exists>rs. files (daily_file sys rt base g st) p = Some (Header cols # map Record rs))"
  using assms
  by (auto simp: daily_file_def print_def tick_def Let_def to_csv_def
           split: cell.splits option.splits)

lemma daily_files_header:
  assumes "\<forall>g \<in> set gs. columns (snd g) = cols"
  shows "files (foldl (\<lambda>s g. daily_file sys rt base g s) st gs) p = files st p
       \<or> (\<exists>rs. files (foldl (\<lambda>s g. daily_file sys rt base g s) st gs) p
                  = Some (Header cols # map Record rs))"
  using assms
proof (induction gs arbitrary: st)
  case Nil
  then show ?case by simp
next
  case (Cons g gs)
  from Cons.prems have "columns (snd g) = cols" by simp
  from daily_file_header [OF this, of sys rt base st p] Cons.IH [of "daily_file sys rt base g st"] Cons.prems
  show ?case by auto
qed

lemma save_daily_csvs_header:
  assumes "flat_table df"
  shows "\<exists>st'. save_daily_csvs sys df rt base st = Inr st'
       \<and> (\<forall>p. files st' p = files st p
              \<or> (\<exists>rs. files st' p = Some (Header (columns df) # map Record rs)))"
proof (cases "''date'' \<in> set (columns df)")
  case False
  then show ?thesis by (simp add: save_daily_csvs_def print_def)
next
  case True
  let ?gs = "map (\<lambda>k. (k, df\<lparr>rows := filter (\<lambda>r. date_cell df r = k) (rows df)\<rparr>))
                      (group_keys (map (date_cell df) (rows df)))"
  have "\<forall>g \<in> set ?gs. columns (snd g) = columns df" by auto
  from daily_files_header [OF this, of sys rt base "print (Splitting rt (length ?gs)) st"]
  show ?thesis using True
    by (simp add: save_daily_csvs_def groupby_date_flat [OF assms True] print_def)
qed

lemma one_row_table:
  "fst (execute_request client_one_row ''sc-domain:example.com'' ''2024-01-01'' ''2024-01-31''
          0 25000 world_query)
     = \<lparr>columns = [''clicks'', ''impressions'', ''ctr'', ''position'', ''query'', ''date''],
        rows = [[Num 1, Num 2, Num 3, Num 4, Str ''shoes'', Str ''2024-01-01'']]\<rparr>"
  by (simp add: execute_request_def client_one_row_def api_one_row_def world_query_def
        world0_def reshape_def frame_of_rows_def frame_of_lists_def setitem_array_def
          set_column_def drop_column_def metric_labels_def Let_def upt_rec with_date_def)

subsection \<open>Which group writes which file\<close>

lemma daily_file_written:
  assumes "never_raises sys"
  shows "files (daily_file sys rt base g st)
           = (case file_of sys base rt (fst g) of
                None \<Rightarrow> files st
              | Some p \<Rightarrow> (files st)(p \<mapsto> to_csv (snd g)))"
  using assms
  by (auto simp: daily_file_def file_of_def daily_path_def never_raises_def print_def tick_def
        Let_def split: cell.splits option.splits)

lemma daily_file_other:
  assumes "file_of sys base rt (fst g) \<noteq> Some p"
  shows "files (daily_file sys rt base g st) p = files st p"
  using assms
  by (auto simp: daily_file_def file_of_def daily_path_def print_def tick_def
        Let_def split: cell.splits option.splits)

lemma loop_other:
  assumes "\<forall>g \<in> set gs. file_of sys base rt (fst g) \<noteq> Some p"
  shows "files (foldl (\<lambda>s g. daily_file sys rt base g s) st gs) p = files st p"
  using assms
  by (induction gs arbitrary: st) (simp_all add: daily_file_other)

lemma loop_unique_writer:
  assumes "never_raises sys" "g \<in> set gs" "file_of sys base rt (fst g) = Some p"
    and "\<forall>h \<in> set gs. file_of sys base rt (fst h) = Some p \<longrightarrow> h = g"
  shows "files (foldl (\<lambda>s g. daily_file sys rt base g s) st gs) p = Some (to_csv (snd g))"
  using assms(2,4)
proof (induction gs arbitrary: st)
  case Nil
  then show ?case by simp
next
  case (Cons h gs)
  show ?case
  proof (cases "g \<in> set gs")
    case True
    with Cons show ?thesis by simp
  next
    case False
    with Cons.prems have h: "h = g" and "\<forall>k \<in> set gs. file_of sys base rt (fst k) \<noteq> Some p"
      by auto
    from loop_other [OF this(2)] have "files (foldl (\<lambda>s g. daily_file sys rt base g s)
        (daily_file sys rt base g st) gs) p = files (daily_file sys rt base g st) p" .
    also have "\<dots> = Some (to_csv (snd g))"
      by (simp add: daily_file_written [OF assms(1)] assms(3))
    finally show ?thesis by (simp add: h)
  qed
qed

lemma daily_path_inj:
  assumes "daily_path base rt x = daily_path base rt y"
  shows "x = y"
proof -
  let ?dir = "os_path_join base rt"
  have hd_eq: "hd (rt @ ''_'' @ x @ ''.csv'') = hd (rt @ ''_'' @ y @ ''.csv'')"
    by (cases rt) simp_all
  have ne: "rt @ ''_'' @ x @ ''.csv'' \<noteq> []" "rt @ ''_'' @ y @ ''.csv'' \<noteq> []" by simp_all
  from assms hd_eq have "rt @ ''_'' @ x @ ''.csv'' = rt @ ''_'' @ y @ ''.csv''"
    unfolding daily_path_def os_path_join_def [of ?dir] using ne
    by (auto split: if_splits)
  then show ?thesis by simp
qed


subsection \<open>Group keys\<close>

lemma strs_of_cells: "s \<in> set [s. Str s \<leftarrow> cs] \<longleftrightarrow> Str s \<in> set cs"
  by (induction cs) (auto split: cell.splits)

lemma nums_of_cells: "n \<in> set [n. Num n \<leftarrow> cs] \<longleftrightarrow> Num n \<in> set cs"
  by (induction cs) (auto split: cell.splits)

lemma group_keys_Str: "Str s \<in> set (group_keys cs) \<longleftrightarrow> Str s \<in> set cs"
  by (auto simp: group_keys_def strs_of_cells)

lemma group_keys_distinct: "distinct (group_keys cs)"
  by (auto simp: group_keys_def distinct_map inj_on_def)

lemma canonical_datesD:
  assumes "canonical_dates sys df" "r \<in> set (rows df)" "date_cell df r = Str s" "strptime sys s = Some d"
  shows "strftime sys d = s"
  using assms by (fastforce simp: canonical_dates_def split: cell.splits option.splits)

subsection \<open>Dates parsed and printed\<close>

lemma take_prefix_hd: "take (length k) (c # r) = k \<Longrightarrow> k \<noteq> [] \<Longrightarrow> hd k = c"
  by (cases k) auto

lemma unicode_digit_ascii [simp]:
  "(of_char c :: nat) < 128 \<Longrightarrow> unicode_digit tab (c # r) = []"
  "unicode_digit tab [] = []"
  by (induction tab) (auto simp: unicode_digit_def dest!: take_prefix_hd)

lemma parse_examples:
  "strptime sys ''2024-01-01'' = Some (Date 2024 1 1)"
  "strptime sys ''2024-01-02'' = Some (Date 2024 1 2)"
  "strptime sys ''2024-01-05'' = Some (Date 2024 1 5)"
  "strptime sys ''2024-1-5'' = Some (Date 2024 1 5)"
  "strptime sys ''2024-13-01'' = None"
  by (simp_all add: strptime_def format_regex_def re_Y_def re_m_def re_d_def re_digit_def
        two_digits_def digit_in_def literal_def make_date_def days_in_month_def is_leap_def)

lemma print_examples:
  "strftime sys (Date 2024 1 1) = ''2024-01-01''"
  "strftime sys (Date 2024 1 2) = ''2024-01-02''"
  "strftime sys (Date 2024 1 5) = ''2024-01-05''"
  by (simp_all add: strftime_def year_text_def pad4_def pad2_def digit_char_def)

text \<open>
  On the example platform: a date with an Arabic-Indic digit parses, though not where the
  pattern asks for \<open>[1-9]\<close>; the year 999 prints without padding, and with it where the
  C library pads.
\<close>

lemma platform_examples:
  "strptime os_ok (''2024-01-1'' @ [CHR 0xD9, CHR 0xA5]) = Some (Date 2024 1 15)"
  "strptime os_ok (''2024-01-'' @ [CHR 0xD9, CHR 0xA5]) = None"
  "strptime os_ok ''0999-01-01'' = Some (Date 999 1 1)"
  "strftime os_ok (Date 999 1 1) = ''999-01-01''"
  "strftime (os_ok\<lparr>pads_year := True\<rparr>) (Date 999 1 1) = ''0999-01-01''"
  "strftime os_ok (Date 2024 1 15) = ''2024-01-15''"
  "strptime os_ok ''2024-01-15'' = Some (Date 2024 1 15)"
  by code_simp+

lemmas print_examples_Suc = print_examples [unfolded One_nat_def]

subsection \<open>The loop over the groups\<close>










lemma daily_file_keeps:
  "files st p \<noteq> None \<Longrightarrow> files (daily_file sys rt base g st) p \<noteq> None"
  by (auto simp: daily_file_def print_def tick_def Let_def split: cell.splits option.splits)

lemma loop_keeps:
  "files st p \<noteq> None \<Longrightarrow> files (foldl (\<lambda>s g. daily_file sys rt base g s) st gs) p \<noteq> None"
proof (induction gs arbitrary: st)
  case Nil
  then show ?case by simp
next
  case (Cons g gs)
  from daily_file_keeps [OF Cons.prems] have "files (daily_file sys rt base g st) p \<noteq> None" .
  from Cons.IH [OF this] show ?case by simp
qed

lemma loop_written:
  assumes "never_raises sys" "g \<in> set gs" "file_of sys base rt (fst g) = Some p"
  shows "files (foldl (\<lambda>s g. daily_file sys rt base g s) st gs) p \<noteq> None"
  using assms(2)
proof (induction gs arbitrary: st)
  case Nil
  then show ?case by simp
next
  case (Cons h gs)
  show ?case
  proof (cases "h = g")
    case True
    have "files (daily_file sys rt base g st) p \<noteq> None"
      by (simp add: daily_file_written [OF assms(1)] assms(3))
    from loop_keeps [OF this] True show ?thesis by simp
  next
    case False
    with Cons show ?thesis by simp
  qed
qed

lemma date_cell_rows_update [simp]: "date_cell (df\<lparr>rows := rs\<rparr>) = date_cell df"
  by (simp add: date_cell_def fun_eq_iff)







lemma main_request_dimensions:
  assumes "build (arg_sa_file a) SCOPES = Built api"
  shows "\<exists>st'. snd (main build sys a st) = Inr st'
       \<and> map (dimensions \<circ> snd) (drop (length (sent st)) (sent st'))
           = map (\<lambda>item. snd item @ [''date'']) report_definitions"
proof -
  from assms main_effect [where build = build and a = a and api = api and sys = sys and st = st]
  obtain st' where m: "snd (main build sys a st) = Inr st'"
    and s: "map snd (sent st') = map snd (sent st) @
            map (\<lambda>item. \<lparr>startDate = arg_start a, endDate = arg_end a,
                          dimensions = with_date (snd item),
                          rowLimit = arg_limit a, startRow = 0\<rparr>) report_definitions"
    by blast
  have "map (dimensions \<circ> snd) (drop (length (sent st)) (sent st'))
          = map dimensions (drop (length (map snd (sent st))) (map snd (sent st')))"
    by (simp add: drop_map)
  also have "\<dots> = map (\<lambda>item. with_date (snd item)) report_definitions"
    unfolding s by (simp add: comp_def)
  also have "\<dots> = map (\<lambda>item. snd item @ [''date'']) report_definitions"
    by (simp add: report_definitions_def with_date_def)
  finally show ?thesis using m by blast
qed

subsection \<open>The file of a group that parses\<close>



subsection \<open>A table without a \<open>date\<close> column\<close>

text \<open>
  Claim C6. For every table lacking a \<open>date\<close> column, \<open>save_daily_csvs\<close> prints its error
  line and returns: the world afterwards is the world before with that one line added to
  the output, so no file is written and no directory created.
\<close>

theorem save_daily_csvs_without_date_column:
  assumes "''date'' \<notin> set (columns df)"
  shows "save_daily_csvs sys df report_type base_dir st
           = Inr (st\<lparr>stdout := stdout st @ [DateColumnNotFound report_type]\<rparr>)"
  using assms by (simp add: save_daily_csvs_def print_def)

theorem save_daily_csvs_without_date_column_witness:
  "''date'' \<notin> set (columns table_without_date)
   \<and> save_daily_csvs os_ok table_without_date ''query'' ''out'' world0
      = Inr (world0\<lparr>stdout := stdout world0 @ [DateColumnNotFound ''query'']\<rparr>)"
  using save_daily_csvs_without_date_column [of table_without_date os_ok "''query''" "''out''" world0]
  by (simp add: table_without_date_def)

subsection \<open>A missing credential file\<close>



subsection \<open>The \<open>date\<close> dimension of a request\<close>

text \<open>
  Claim C2, as amended. When the handle is initialised, \<open>execute_request\<close> sends one
  request whose dimension list contains \<open>date\<close>: once when the caller's list did not
  contain it or contained it once, and otherwise as often as the caller's list did
  (line 62 only tests membership, nothing removes a repeated entry). A run of \<open>main\<close>
  with a client sends, for the seven report definitions in their order, the definition's
  dimensions followed by \<open>date\<close>.
\<close>

theorem request_holds_date:
  "(service self = Some api
      \<longrightarrow> (\<exists>body. sent (snd (execute_request self u s e r l st)) = sent st @ [(u, body)]
             \<and> ''date'' \<in> set (dimensions body)
             \<and> count_list (dimensions body) ''date'' = max 1 (count_list (heap st r) ''date'')))
   \<and> (build (arg_sa_file a) SCOPES = Built api0
      \<longrightarrow> (\<exists>st'. snd (main build sys a st0) = Inr st'
             \<and> map (dimensions \<circ> snd) (drop (length (sent st0)) (sent st'))
                 = map (\<lambda>item. snd item @ [''date'']) report_definitions))"
proof (intro conjI impI)
  assume "service self = Some api"
  from execute_request_sent [OF this, of u s e r l st]
  show "\<exists>body. sent (snd (execute_request self u s e r l st)) = sent st @ [(u, body)]
             \<and> ''date'' \<in> set (dimensions body)
             \<and> count_list (dimensions body) ''date'' = max 1 (count_list (heap st r) ''date'')"
    by (simp add: request_for_def count_with_date) (simp add: with_date_def)
next
  assume "build (arg_sa_file a) SCOPES = Built api0"
  then show "\<exists>st'. snd (main build sys a st0) = Inr st'
             \<and> map (dimensions \<circ> snd) (drop (length (sent st0)) (sent st'))
                 = map (\<lambda>item. snd item @ [''date'']) report_definitions"
    by (rule main_request_dimensions)
qed

theorem request_holds_date_witness:
  "service client_no_rows = Some api_no_rows
   \<and> (\<exists>body. sent (snd (execute_request client_no_rows ''sc-domain:example.com''
                           ''2024-01-01'' ''2024-01-31'' 0 25000 world_query))
               = sent world_query @ [(''sc-domain:example.com'', body)]
           \<and> ''date'' \<in> set (dimensions body)
           \<and> count_list (dimensions body) ''date''
               = max 1 (count_list (heap world_query 0) ''date''))
   \<and> build_no_rows (arg_sa_file args0) SCOPES = Built api_no_rows
   \<and> (\<exists>st'. snd (main build_no_rows os_ok args0 world0) = Inr st'
         \<and> map (dimensions \<circ> snd) (drop (length (sent world0)) (sent st'))
             = [[''page'', ''query'', ''country'', ''device'', ''date''],
                [''searchAppearance'', ''date''], [''query'', ''page'', ''date''],
                [''page'', ''date''], [''query'', ''date''], [''country'', ''date''],
                [''device'', ''date'']])"
proof -
  have h1: "service client_no_rows = Some api_no_rows" by (simp add: client_no_rows_def)
  have h2: "build_no_rows (arg_sa_file args0) SCOPES = Built api_no_rows"
    by (simp add: build_no_rows_def)
  note t = request_holds_date [where self = client_no_rows and api = api_no_rows
      and u = "''sc-domain:example.com''" and s = "''2024-01-01''" and e = "''2024-01-31''"
      and r = 0 and l = 25000 and st = world_query and build = build_no_rows and a = args0
      and api0 = api_no_rows and sys = os_ok and ?st0.0 = world0]
  from t h1 have c1: "\<exists>body. sent (snd (execute_request client_no_rows ''sc-domain:example.com''
                           ''2024-01-01'' ''2024-01-31'' 0 25000 world_query))
               = sent world_query @ [(''sc-domain:example.com'', body)]
           \<and> ''date'' \<in> set (dimensions body)
           \<and> count_list (dimensions body) ''date''
               = max 1 (count_list (heap world_query 0) ''date'')"
    by blast
  from t h2 obtain st' where m: "snd (main build_no_rows os_ok args0 world0) = Inr st'"
    and d: "map (dimensions \<circ> snd) (drop (length (sent world0)) (sent st'))
             = map (\<lambda>item. snd item @ [''date'']) report_definitions"
    by blast
  from d have "map (dimensions \<circ> snd) (drop (length (sent world0)) (sent st'))
             = [[''page'', ''query'', ''country'', ''device'', ''date''],
                [''searchAppearance'', ''date''], [''query'', ''page'', ''date''],
                [''page'', ''date''], [''query'', ''date''], [''country'', ''date''],
                [''device'', ''date'']]"
    by (simp add: report_definitions_def)
  with m have c2: "\<exists>st'. snd (main build_no_rows os_ok args0 world0) = Inr st'
         \<and> map (dimensions \<circ> snd) (drop (length (sent world0)) (sent st'))
             = [[''page'', ''query'', ''country'', ''device'', ''date''],
                [''searchAppearance'', ''date''], [''query'', ''page'', ''date''],
                [''page'', ''date''], [''query'', ''date''], [''country'', ''date''],
                [''device'', ''date'']]"
    by (intro exI [of _ st'] conjI)
  show ?thesis by (rule conjI [OF h1 conjI [OF c1 conjI [OF h2 c2]]])
qed


text \<open>
  The claim as stated fails for a caller's list that already holds \<open>date\<close> twice: both
  entries are sent.
\<close>

theorem date_twice_counterexample:
  "sent (snd (execute_request client_no_rows ''sc-domain:example.com''
                ''2024-01-01'' ''2024-01-31'' 0 25000 world_date_twice))
     = [(''sc-domain:example.com'',
         \<lparr>startDate = ''2024-01-01'', endDate = ''2024-01-31'',
          dimensions = [''date'', ''date''], rowLimit = 25000, startRow = 0\<rparr>)]
   \<and> count_list [''date'', ''date''] ''date'' = 2"
  by (simp add: execute_request_def client_no_rows_def api_no_rows_def world_date_twice_def
        world0_def print_def)

subsection \<open>Queries that fail or return nothing\<close>

text \<open>
  Claim C4. \<open>execute_request\<close> returns a table on every path (its model has no error
  result). The table is the empty one when the handle is \<open>None\<close>, when the call raises
  \<open>HttpError\<close> or any other exception, when the response has no \<open>rows\<close> field or an
  empty one, and when reshaping the rows raises; at most one request is sent, none
  without a handle. In the loop of \<open>main\<close>, a report whose query returned an empty table
  leaves files and directories as they were and makes no file-system call.
\<close>

theorem failed_query_gives_empty_table:
  "(service self = None
      \<or> (\<exists>api. service self = Some api
            \<and> api (length (sent st)) u (request_for st s e r l)
                \<in> {HttpError, OtherException, Response None, Response (Some [])})
      \<or> (\<exists>api rs err. service self = Some api
            \<and> api (length (sent st)) u (request_for st s e r l) = Response (Some rs)
            \<and> reshape rs (dimensions (request_for st s e r l)) = Inl err)
    \<longrightarrow> fst (execute_request self u s e r l st) = empty_frame)
   \<and> sent (snd (execute_request self u s e r l st))
       = sent st @ (case service self of None \<Rightarrow> [] | Some api \<Rightarrow> [(u, request_for st s e r l)])
   \<and> (df_empty (fst (fetch_report sc_api a item st))
      \<longrightarrow> (\<exists>st'. run_report sys sc_api a item st = Inr st'
             \<and> files st' = files st \<and> dirs st' = dirs st \<and> os_calls st' = os_calls st))"
proof (intro conjI impI)
  assume "service self = None
      \<or> (\<exists>api. service self = Some api
            \<and> api (length (sent st)) u (request_for st s e r l)
                \<in> {HttpError, OtherException, Response None, Response (Some [])})
      \<or> (\<exists>api rs err. service self = Some api
            \<and> api (length (sent st)) u (request_for st s e r l) = Response (Some rs)
            \<and> reshape rs (dimensions (request_for st s e r l)) = Inl err)"
  then show "fst (execute_request self u s e r l st) = empty_frame"
    using execute_request_failure [of self st u s e r l] execute_request_table [of self u s e r l st]
    by auto
next
  show "sent (snd (execute_request self u s e r l st))
       = sent st @ (case service self of None \<Rightarrow> [] | Some api \<Rightarrow> [(u, request_for st s e r l)])"
    by (cases "service self") (simp_all add: execute_request_sent execute_request_sent_None)
next
  assume em: "df_empty (fst (fetch_report sc_api a item st))"
  obtain df st3 where f: "fetch_report sc_api a item st = (df, st3)"
    by (cases "fetch_report sc_api a item st")
  with em have "run_report sys sc_api a item st = Inr (print (NoDataReturned (fst item)) st3)"
    by (simp add: run_report_def)
  with fetch_report_fs [OF f]
  show "\<exists>st'. run_report sys sc_api a item st = Inr st'
             \<and> files st' = files st \<and> dirs st' = dirs st \<and> os_calls st' = os_calls st"
    by (simp add: print_def)
qed

theorem failed_query_gives_empty_table_witness:
  "(service client_no_rows = None
      \<or> (\<exists>api. service client_no_rows = Some api
            \<and> api (length (sent world_query)) ''sc-domain:example.com''
                   (request_for world_query ''2024-01-01'' ''2024-01-31'' 0 25000)
                \<in> {HttpError, OtherException, Response None, Response (Some [])})
      \<or> (\<exists>api rs err. service client_no_rows = Some api
            \<and> api (length (sent world_query)) ''sc-domain:example.com''
                   (request_for world_query ''2024-01-01'' ''2024-01-31'' 0 25000)
                = Response (Some rs)
            \<and> reshape rs (dimensions (request_for world_query ''2024-01-01'' ''2024-01-31''
                                         0 25000)) = Inl err))
   \<and> fst (execute_request client_no_rows ''sc-domain:example.com'' ''2024-01-01'' ''2024-01-31''
            0 25000 world_query) = empty_frame
   \<and> length (sent (snd (execute_request client_no_rows ''sc-domain:example.com'' ''2024-01-01''
            ''2024-01-31'' 0 25000 world_query))) = 1
   \<and> df_empty (fst (fetch_report client_no_rows args0 (''query'', 0) world_query))
   \<and> (\<exists>st'. run_report os_ok client_no_rows args0 (''query'', 0) world_query = Inr st'
         \<and> files st' = files world_query \<and> dirs st' = dirs world_query
         \<and> os_calls st' = os_calls world_query)"
proof -
  have h1: "service client_no_rows = None
      \<or> (\<exists>api. service client_no_rows = Some api
            \<and> api (length (sent world_query)) ''sc-domain:example.com''
                   (request_for world_query ''2024-01-01'' ''2024-01-31'' 0 25000)
                \<in> {HttpError, OtherException, Response None, Response (Some [])})
      \<or> (\<exists>api rs err. service client_no_rows = Some api
            \<and> api (length (sent world_query)) ''sc-domain:example.com''
                   (request_for world_query ''2024-01-01'' ''2024-01-31'' 0 25000)
                = Response (Some rs)
            \<and> reshape rs (dimensions (request_for world_query ''2024-01-01'' ''2024-01-31''
                                         0 25000)) = Inl err)"
    by (simp add: client_no_rows_def api_no_rows_def)
  have h2: "df_empty (fst (fetch_report client_no_rows args0 (''query'', 0) world_query))"
    by (simp add: fetch_report_def execute_request_def client_no_rows_def api_no_rows_def
          new_list_def print_def df_empty_def empty_frame_def Let_def)
  note t = failed_query_gives_empty_table [of client_no_rows world_query "''sc-domain:example.com''"
      "''2024-01-01''" "''2024-01-31''" 0 25000 client_no_rows args0 "(''query'', 0)" os_ok]
  from t h1 have c1: "fst (execute_request client_no_rows ''sc-domain:example.com'' ''2024-01-01''
      ''2024-01-31'' 0 25000 world_query) = empty_frame"
    by blast
  from t have "sent (snd (execute_request client_no_rows ''sc-domain:example.com'' ''2024-01-01''
            ''2024-01-31'' 0 25000 world_query))
       = sent world_query @ (case service client_no_rows of None \<Rightarrow> []
            | Some api \<Rightarrow> [(''sc-domain:example.com'',
                 request_for world_query ''2024-01-01'' ''2024-01-31'' 0 25000)])"
    by blast
  then have c2: "length (sent (snd (execute_request client_no_rows ''sc-domain:example.com''
      ''2024-01-01'' ''2024-01-31'' 0 25000 world_query))) = 1"
    by (simp add: client_no_rows_def world_query_def world0_def)
  from t h2 have c3: "\<exists>st'. run_report os_ok client_no_rows args0 (''query'', 0) world_query = Inr st'
         \<and> files st' = files world_query \<and> dirs st' = dirs world_query
         \<and> os_calls st' = os_calls world_query"
    by blast
  from h1 h2 c1 c2 c3 show ?thesis by blast
qed


subsection \<open>The row limit of a request\<close>

text \<open>
  Claim C8, as amended. The \<open>rowLimit\<close> of every request of a run is the value of
  \<open>--limit\<close> as given on the command line (25000 when the option is absent): a run with
  a client sends one request per report definition, each with that value, and a run
  without a client sends none. The program does not lower a larger value; the limit is
  at most 25000 exactly when the argument is.
\<close>

theorem row_limit_is_the_limit_argument:
  "arg_limit (parse_args prop sa start_d end_d out lim) = (case lim of None \<Rightarrow> 25000 | Some n \<Rightarrow> n)
   \<and> (\<exists>st'. snd (main build sys a st) = Inr st'
        \<and> map (rowLimit \<circ> snd) (sent st')
            = map (rowLimit \<circ> snd) (sent st)
              @ replicate (case build (arg_sa_file a) SCOPES of
                             Built api \<Rightarrow> length report_definitions | _ \<Rightarrow> 0) (arg_limit a))"
  using main_row_limits [of build sys a st] by (simp add: parse_args_def)

text \<open>With \<open>--limit 50000\<close> all seven requests carry 50000.\<close>

theorem row_limit_counterexample:
  "arg_limit args_over_limit = 50000
   \<and> \<not> isl (snd (main build_no_rows os_ok args_over_limit world0))
   \<and> map (rowLimit \<circ> snd) (sent (projr (snd (main build_no_rows os_ok args_over_limit world0))))
       = [50000, 50000, 50000, 50000, 50000, 50000, 50000]"
proof -
  have a: "arg_limit args_over_limit = 50000" by (simp add: args_over_limit_def parse_args_def)
  from main_row_limits [of build_no_rows os_ok args_over_limit world0]
  obtain st' where m: "snd (main build_no_rows os_ok args_over_limit world0) = Inr st'"
    and s: "map (rowLimit \<circ> snd) (sent st') = replicate (length report_definitions) 50000"
    by (auto simp: build_no_rows_def world0_def a)
  have "replicate (length report_definitions) (50000::int)
          = [50000, 50000, 50000, 50000, 50000, 50000, 50000]"
    by (simp add: report_definitions_def numeral_eq_Suc)
  with a m s show ?thesis by simp
qed

subsection \<open>The list object passed as \<open>dimensions\<close>\<close>




subsection \<open>The columns of a daily file\<close>

text \<open>
  Claim C3, as amended. For every successful query whose dimension names are distinct and
  none of which is \<open>keys\<close> or the name of a metric, the table has the four metrics first
  (the columns of the response rows, \<open>keys\<close> dropped) and then the request's dimensions
  in request order (line 86 appends them); \<open>save_daily_csvs\<close> then returns, and every
  file it has written or replaced starts with a header line naming exactly these columns.
\<close>

theorem daily_file_columns:
  assumes "\<not> df_empty (fst (execute_request self u s e r l st))"
    and "distinct (dimensions (request_for st s e r l))"
    and "set (dimensions (request_for st s e r l)) \<inter> set (''keys'' # metric_labels) = {}"
  shows "columns (fst (execute_request self u s e r l st))
           = [''clicks'', ''impressions'', ''ctr'', ''position'']
               @ dimensions (request_for st s e r l)
       \<and> (\<exists>st2. save_daily_csvs sys (fst (execute_request self u s e r l st)) report_type base_dir
                   (snd (execute_request self u s e r l st)) = Inr st2
            \<and> (\<forall>p. files st2 p = files st p
                   \<or> (\<exists>rs. files st2 p
                        = Some (Header ([''clicks'', ''impressions'', ''ctr'', ''position'']
                                          @ dimensions (request_for st s e r l))
                                # map Record rs))))"
proof -
  let ?df = "fst (execute_request self u s e r l st)"
  let ?st1 = "snd (execute_request self u s e r l st)"
  from assms(1) execute_request_table [of self u s e r l st]
  obtain rs where rs: "reshape rs (dimensions (request_for st s e r l)) = Inr ?df"
    by (auto simp: df_empty_def empty_frame_def)
  have fs: "files ?st1 = files st"
    using execute_request_frame [of self u s e r l st ?df ?st1] by simp
  from reshape_columns [OF rs assms(2,3)] reshape_flat [OF rs]
    save_daily_csvs_header [of ?df sys report_type base_dir ?st1]
  show ?thesis by (simp add: metric_labels_def fs)
qed

theorem daily_file_columns_witness:
  "\<not> df_empty (fst (execute_request client_one_row ''sc-domain:example.com'' ''2024-01-01''
                      ''2024-01-31'' 0 25000 world_query))
   \<and> distinct (dimensions (request_for world_query ''2024-01-01'' ''2024-01-31'' 0 25000))
   \<and> set (dimensions (request_for world_query ''2024-01-01'' ''2024-01-31'' 0 25000))
        \<inter> set (''keys'' # metric_labels) = {}
   \<and> columns (fst (execute_request client_one_row ''sc-domain:example.com'' ''2024-01-01''
                     ''2024-01-31'' 0 25000 world_query))
       = [''clicks'', ''impressions'', ''ctr'', ''position'', ''query'', ''date'']"
proof -
  have h1: "\<not> df_empty (fst (execute_request client_one_row ''sc-domain:example.com''
                      ''2024-01-01'' ''2024-01-31'' 0 25000 world_query))"
    by (simp add: one_row_table df_empty_def)
  have d: "dimensions (request_for world_query ''2024-01-01'' ''2024-01-31'' 0 25000)
             = [''query'', ''date'']"
    by (simp add: request_for_def with_date_def world_query_def)
  have h2: "distinct (dimensions (request_for world_query ''2024-01-01'' ''2024-01-31'' 0 25000))"
    by (simp add: d)
  have h3: "set (dimensions (request_for world_query ''2024-01-01'' ''2024-01-31'' 0 25000))
        \<inter> set (''keys'' # metric_labels) = {}"
    by (simp add: d metric_labels_def)
  from daily_file_columns [OF h1 h2 h3, of os_ok "''query''" "''out''"] h1 h2 h3
  show ?thesis by (simp add: d)
qed


text \<open>
  The claim as stated puts the dimensions first. For the report \<open>query\<close> and one response
  row, the table and the file written start with the metrics.
\<close>

theorem daily_file_columns_counterexample:
  "fst (execute_request client_one_row ''sc-domain:example.com'' ''2024-01-01'' ''2024-01-31''
          0 25000 world_query)
     = \<lparr>columns = [''clicks'', ''impressions'', ''ctr'', ''position'', ''query'', ''date''],
        rows = [[Num 1, Num 2, Num 3, Num 4, Str ''shoes'', Str ''2024-01-01'']]\<rparr>
   \<and> files (projr (run_report os_ok client_one_row args0 (''query'', 0) world_query))
        ''search_console_reports/query/query_2024-01-01.csv''
     = Some [Header [''clicks'', ''impressions'', ''ctr'', ''position'', ''query'', ''date''],
             Record [Num 1, Num 2, Num 3, Num 4, Str ''shoes'', Str ''2024-01-01'']]"
proof -
  note p = parse_examples(1) and f = print_examples_Suc(1)
  have r: "reshape [\<lparr>keys = [''shoes'', ''2024-01-01''], clicks = 1, impressions = 2,
                      ctr = 3, position = 4\<rparr>] [''query'', ''date'']
      = Inr \<lparr>columns = [''clicks'', ''impressions'', ''ctr'', ''position'', ''query'', ''date''],
        rows = [[Num 1, Num 2, Num 3, Num 4, Str ''shoes'', Str ''2024-01-01'']]\<rparr>"
    by (simp add: reshape_def frame_of_rows_def frame_of_lists_def setitem_array_def
          set_column_def drop_column_def metric_labels_def Let_def upt_rec)
  have g: "groupby_date \<lparr>columns = [''clicks'', ''impressions'', ''ctr'', ''position'', ''query'', ''date''],
        rows = [[Num 1, Num 2, Num 3, Num 4, Str ''shoes'', Str ''2024-01-01'']]\<rparr>
      = Inr [(Str ''2024-01-01'',
              \<lparr>columns = [''clicks'', ''impressions'', ''ctr'', ''position'', ''query'', ''date''],
               rows = [[Num 1, Num 2, Num 3, Num 4, Str ''shoes'', Str ''2024-01-01'']]\<rparr>)]"
    by (simp add: groupby_date_def group_keys_def date_cell_def cell_at_def is_Lst_def)
  have "files (projr (run_report os_ok client_one_row args0 (''query'', 0) world_query))
        ''search_console_reports/query/query_2024-01-01.csv''
     = Some [Header [''clicks'', ''impressions'', ''ctr'', ''position'', ''query'', ''date''],
             Record [Num 1, Num 2, Num 3, Num 4, Str ''shoes'', Str ''2024-01-01'']]"
    by (simp add: run_report_def fetch_report_def new_list_def print_def execute_request_def
          client_one_row_def api_one_row_def world_query_def world0_def r args0_def parse_args_def
          df_empty_def save_daily_csvs_def g daily_file_def p f os_ok_def os_path_join_def
          tick_def to_csv_def Let_def)
  with one_row_table show ?thesis by simp
qed

subsection \<open>One file per date\<close>

text \<open>
  Claim C1, as amended. For every flat table with a \<open>date\<close> column whose parseable dates
  are all written exactly as \<open>strftime\<close> prints them back on the platform (ASCII digits,
  month and day with two digits), on a platform whose file-system calls do not fail,
  \<open>save_daily_csvs\<close> returns and has written, for each distinct parseable date value,
  the file \<open>{reportType}_{date}.csv\<close> under \<open>baseDir/reportType\<close>; that file holds the
  header and exactly the rows of the table with that date, in their order; no other path
  has changed; and different dates have different paths.
\<close>

theorem daily_files_of_canonical_dates:
  assumes "flat_table df" and "''date'' \<in> set (columns df)" and "canonical_dates sys df"
    and "never_raises sys"
  shows "\<exists>st'. save_daily_csvs sys df report_type base_dir st = Inr st'
       \<and> (\<forall>s. Str s \<in> date_cell df ` set (rows df) \<and> strptime sys s \<noteq> None
              \<longrightarrow> files st' (daily_path base_dir report_type s)
                    = Some (Header (columns df)
                            # map Record (filter (\<lambda>r. date_cell df r = Str s) (rows df))))
       \<and> (\<forall>p. (\<forall>s. Str s \<in> date_cell df ` set (rows df) \<and> strptime sys s \<noteq> None
                     \<longrightarrow> p \<noteq> daily_path base_dir report_type s)
              \<longrightarrow> files st' p = files st p)
       \<and> (\<forall>s t. daily_path base_dir report_type s = daily_path base_dir report_type t
                \<longrightarrow> s = t)"
proof -
  let ?sub = "\<lambda>k. df\<lparr>rows := filter (\<lambda>r. date_cell df r = k) (rows df)\<rparr>"
  let ?cells = "map (date_cell df) (rows df)"
  let ?gs = "map (\<lambda>k. (k, ?sub k)) (group_keys ?cells)"
  let ?st0 = "print (Splitting report_type (length ?gs)) st"
  let ?st1 = "foldl (\<lambda>s g. daily_file sys report_type base_dir g s) ?st0 ?gs"
  have save: "save_daily_csvs sys df report_type base_dir st
                = Inr (print (SavedDailyFiles report_type base_dir) ?st1)"
    using assms(2) by (simp add: save_daily_csvs_def groupby_date_flat [OF assms(1,2)])
  have writer: "file_of sys base_dir report_type (fst h) = Some (daily_path base_dir report_type s')"
    if "h \<in> set ?gs" "file_of sys base_dir report_type (fst h) = Some p" "fst h = Str s'" for h p s'
  proof -
    from that obtain d where d: "strptime sys s' = Some d"
      and p: "p = daily_path base_dir report_type (strftime sys d)"
      by (auto simp: file_of_def)
    from that(1,3) have "Str s' \<in> set ?cells" by (auto simp: group_keys_Str)
    then obtain r where "r \<in> set (rows df)" "date_cell df r = Str s'" by auto
    from canonical_datesD [OF assms(3) this d] that(2) p show ?thesis by simp
  qed
  have written: "files ?st1 (daily_path base_dir report_type s)
                    = Some (Header (columns df)
                            # map Record (filter (\<lambda>r. date_cell df r = Str s) (rows df)))"
    if s: "Str s \<in> date_cell df ` set (rows df)" and ok: "strptime sys s \<noteq> None" for s
  proof -
    let ?g = "(Str s, ?sub (Str s))"
    from s have g: "?g \<in> set ?gs" by (auto simp: group_keys_Str)
    from ok obtain d where d: "strptime sys s = Some d" by auto
    from s obtain r where "r \<in> set (rows df)" "date_cell df r = Str s" by auto
    from canonical_datesD [OF assms(3) this d]
    have f: "file_of sys base_dir report_type (fst ?g) = Some (daily_path base_dir report_type s)"
      by (simp add: file_of_def d)
    have u: "\<forall>h \<in> set ?gs. file_of sys base_dir report_type (fst h)
                = Some (daily_path base_dir report_type s) \<longrightarrow> h = ?g"
    proof (intro ballI impI)
      fix h assume h: "h \<in> set ?gs"
        and w: "file_of sys base_dir report_type (fst h) = Some (daily_path base_dir report_type s)"
      from w obtain s' where s': "fst h = Str s'" by (auto simp: file_of_def split: cell.splits)
      from writer [OF h w s'] w have "daily_path base_dir report_type s' = daily_path base_dir report_type s"
        by simp
      then have "s' = s" by (rule daily_path_inj)
      with h s' show "h = ?g" by auto
    qed
    from loop_unique_writer [OF assms(4) g f u, of ?st0]
    show ?thesis by (simp add: to_csv_def)
  qed
  have other: "files ?st1 p = files st p"
    if "\<forall>s. Str s \<in> date_cell df ` set (rows df) \<and> strptime sys s \<noteq> None
              \<longrightarrow> p \<noteq> daily_path base_dir report_type s" for p
  proof -
    have "\<forall>h \<in> set ?gs. file_of sys base_dir report_type (fst h) \<noteq> Some p"
    proof (intro ballI notI)
      fix h assume h: "h \<in> set ?gs" and w: "file_of sys base_dir report_type (fst h) = Some p"
      from w obtain s' where s': "fst h = Str s'" and ok: "strptime sys s' \<noteq> None"
        by (auto simp: file_of_def split: cell.splits)
      from h s' have "Str s' \<in> date_cell df ` set (rows df)" by (auto simp: group_keys_Str)
      with that ok have "p \<noteq> daily_path base_dir report_type s'" by blast
      with writer [OF h w s'] w show False by simp
    qed
    from loop_other [OF this, where st = ?st0] show ?thesis by (simp add: print_def)
  qed
  from save written other daily_path_inj show ?thesis
    by (auto simp: print_def)
qed


theorem daily_files_of_canonical_dates_witness:
  "flat_table table_two_days \<and> ''date'' \<in> set (columns table_two_days)
   \<and> canonical_dates os_ok table_two_days \<and> never_raises os_ok
   \<and> (\<exists>st'. save_daily_csvs os_ok table_two_days ''query'' ''out'' world0 = Inr st'
         \<and> files st' ''out/query/query_2024-01-01.csv''
             = Some [Header [''clicks'', ''date''], Record [Num 1, Str ''2024-01-01''],
                     Record [Num 3, Str ''2024-01-01'']]
         \<and> files st' ''out/query/query_2024-01-02.csv''
             = Some [Header [''clicks'', ''date''], Record [Num 2, Str ''2024-01-02'']]
         \<and> files st' ''out/query/query_2024-01-03.csv'' = None)"
proof -
  have h1: "flat_table table_two_days"
    by (simp add: flat_table_def table_two_days_def is_Lst_def)
  have h2: "''date'' \<in> set (columns table_two_days)" by (simp add: table_two_days_def)
  have h3: "canonical_dates os_ok table_two_days"
    by (simp add: canonical_dates_def table_two_days_def date_cell_def cell_at_def
          parse_examples print_examples print_examples_Suc)
  have h4: "never_raises os_ok" by (simp add: never_raises_def os_ok_def)
  have cells: "date_cell table_two_days ` set (rows table_two_days)
                 = {Str ''2024-01-01'', Str ''2024-01-02''}"
    by (auto simp: table_two_days_def date_cell_def cell_at_def)
  from daily_files_of_canonical_dates [OF h1 h2 h3 h4, of "''query''" "''out''" world0]
  obtain st' where s: "save_daily_csvs os_ok table_two_days ''query'' ''out'' world0 = Inr st'"
    and w: "\<And>s. Str s \<in> date_cell table_two_days ` set (rows table_two_days) \<Longrightarrow>
              strptime os_ok s \<noteq> None \<Longrightarrow>
              files st' (daily_path ''out'' ''query'' s)
                = Some (Header (columns table_two_days)
                        # map Record (filter (\<lambda>r. date_cell table_two_days r = Str s)
                                         (rows table_two_days)))"
    and o: "\<And>p. (\<forall>s. Str s \<in> date_cell table_two_days ` set (rows table_two_days)
                       \<and> strptime os_ok s \<noteq> None \<longrightarrow> p \<noteq> daily_path ''out'' ''query'' s)
              \<Longrightarrow> files st' p = files world0 p"
    by blast
  from w [of "''2024-01-01''"]
  have 1: "files st' ''out/query/query_2024-01-01.csv''
             = Some [Header [''clicks'', ''date''], Record [Num 1, Str ''2024-01-01''],
                     Record [Num 3, Str ''2024-01-01'']]"
    by (simp add: cells parse_examples daily_path_def os_path_join_def)
       (simp add: table_two_days_def date_cell_def cell_at_def)
  from w [of "''2024-01-02''"]
  have 2: "files st' ''out/query/query_2024-01-02.csv''
             = Some [Header [''clicks'', ''date''], Record [Num 2, Str ''2024-01-02'']]"
    by (simp add: cells parse_examples daily_path_def os_path_join_def)
       (simp add: table_two_days_def date_cell_def cell_at_def)
  have "files st' ''out/query/query_2024-01-03.csv'' = files world0 ''out/query/query_2024-01-03.csv''"
    by (rule o) (auto simp: cells daily_path_def os_path_join_def)
  then have 3: "files st' ''out/query/query_2024-01-03.csv'' = None" by (simp add: world0_def)
  from h1 h2 h3 h4 s 1 2 3 show ?thesis by blast
qed

text \<open>
  The claim as stated fails for a date that \<open>strptime\<close> accepts without zero padding:
  for the single date value \<open>2024-1-5\<close> the only file written is
  \<open>query_2024-01-05.csv\<close>, not \<open>query_2024-1-5.csv\<close>, and its row does not carry the
  date of the file's name.
\<close>

theorem unpadded_date_counterexample:
  "strptime os_ok ''2024-1-5'' = Some (Date 2024 1 5)
   \<and> daily_path ''out'' ''query'' ''2024-1-5'' = ''out/query/query_2024-1-5.csv''
   \<and> \<not> isl (save_daily_csvs os_ok table_unpadded ''query'' ''out'' world0)
   \<and> dom (files (projr (save_daily_csvs os_ok table_unpadded ''query'' ''out'' world0)))
       = {''out/query/query_2024-01-05.csv''}
   \<and> files (projr (save_daily_csvs os_ok table_unpadded ''query'' ''out'' world0))
        ''out/query/query_2024-01-05.csv''
       = Some [Header [''clicks'', ''date''], Record [Num 2, Str ''2024-1-5'']]"
proof -
  have g: "groupby_date table_unpadded
      = Inr [(Str ''2024-1-5'', \<lparr>columns = [''clicks'', ''date''],
                                 rows = [[Num 2, Str ''2024-1-5'']]\<rparr>)]"
    by (simp add: groupby_date_def group_keys_def date_cell_def cell_at_def is_Lst_def
          table_unpadded_def)
  have s: "save_daily_csvs os_ok table_unpadded ''query'' ''out'' world0
      = Inr \<lparr>heap = (\<lambda>_. []), next_ref = 0,
             files = [''out/query/query_2024-01-05.csv'' \<mapsto>
                        [Header [''clicks'', ''date''], Record [Num 2, Str ''2024-1-5'']]],
             dirs = {''out/query''},
             stdout = [Splitting ''query'' 1, SavedDailyFiles ''query'' ''out''],
             sent = [], os_calls = 2\<rparr>"
    by (simp add: save_daily_csvs_def g daily_file_def parse_examples print_examples
          print_examples_Suc os_ok_def os_path_join_def tick_def to_csv_def print_def
          world0_def Let_def)
       (simp add: table_unpadded_def)
  show ?thesis by (simp add: s parse_examples daily_path_def os_path_join_def)
qed

text \<open>
  The same mechanism lets two spellings of one day, both accepted by \<open>strptime\<close>, share
  a path: the group written last (the groups come in ascending order of their key)
  replaces the file of the other.
\<close>

lemma two_spellings_share_a_file:
  "strptime os_ok ''2024-01-05'' = Some (Date 2024 1 5) \<and> strptime os_ok ''2024-1-5'' = Some (Date 2024 1 5)
   \<and> \<not> isl (save_daily_csvs os_ok table_two_spellings ''query'' ''out'' world0)
   \<and> dom (files (projr (save_daily_csvs os_ok table_two_spellings ''query'' ''out'' world0)))
       = {''out/query/query_2024-01-05.csv''}
   \<and> files (projr (save_daily_csvs os_ok table_two_spellings ''query'' ''out'' world0))
        ''out/query/query_2024-01-05.csv''
       = Some [Header [''clicks'', ''date''], Record [Num 2, Str ''2024-1-5'']]"
proof -
  have g: "groupby_date table_two_spellings
      = Inr [(Str ''2024-01-05'', \<lparr>columns = [''clicks'', ''date''],
                                   rows = [[Num 1, Str ''2024-01-05'']]\<rparr>),
             (Str ''2024-1-5'', \<lparr>columns = [''clicks'', ''date''],
                                 rows = [[Num 2, Str ''2024-1-5'']]\<rparr>)]"
    by (simp add: groupby_date_def group_keys_def date_cell_def cell_at_def is_Lst_def
          table_two_spellings_def)
  have s: "save_daily_csvs os_ok table_two_spellings ''query'' ''out'' world0
      = Inr \<lparr>heap = (\<lambda>_. []), next_ref = 0,
             files = [''out/query/query_2024-01-05.csv'' \<mapsto>
                        [Header [''clicks'', ''date''], Record [Num 2, Str ''2024-1-5'']]],
             dirs = {''out/query''},
             stdout = [Splitting ''query'' 2, SavedDailyFiles ''query'' ''out''],
             sent = [], os_calls = 4\<rparr>"
    by (simp add: save_daily_csvs_def g daily_file_def parse_examples print_examples
          print_examples_Suc os_ok_def os_path_join_def tick_def to_csv_def print_def
          world0_def Let_def)
       (simp add: table_two_spellings_def)
  show ?thesis by (simp add: s parse_examples)
qed



text \<open>
  So do two spellings in different scripts: the table is not one of canonical dates, and
  the group of the non-ASCII spelling, which sorts last, replaces the file.
\<close>

lemma two_scripts_share_a_file:
  "\<not> canonical_dates os_ok table_two_scripts
   \<and> files (projr (save_daily_csvs os_ok table_two_scripts ''query'' ''out'' world0))
        ''out/query/query_2024-01-15.csv''
       = Some [Header [''clicks'', ''date''],
               Record [Num 2, Str (''2024-01-1'' @ [CHR 0xD9, CHR 0xA5])]]"
proof -
  have g: "groupby_date table_two_scripts
      = Inr [(Str ''2024-01-15'', \<lparr>columns = [''clicks'', ''date''],
                                   rows = [[Num 1, Str ''2024-01-15'']]\<rparr>),
             (Str (''2024-01-1'' @ [CHR 0xD9, CHR 0xA5]),
              \<lparr>columns = [''clicks'', ''date''],
               rows = [[Num 2, Str (''2024-01-1'' @ [CHR 0xD9, CHR 0xA5])]]\<rparr>)]"
    by (simp add: groupby_date_def group_keys_def date_cell_def cell_at_def is_Lst_def
          table_two_scripts_def)
  have nc: "\<not> canonical_dates os_ok table_two_scripts"
    using platform_examples(1,6)
    by (simp add: canonical_dates_def table_two_scripts_def date_cell_def cell_at_def)
  have "files (projr (save_daily_csvs os_ok table_two_scripts ''query'' ''out'' world0))
        ''out/query/query_2024-01-15.csv''
       = Some [Header [''clicks'', ''date''],
               Record [Num 2, Str (''2024-01-1'' @ [CHR 0xD9, CHR 0xA5])]]"
    using platform_examples(1,6,7)
    by (simp add: save_daily_csvs_def g daily_file_def os_path_join_def tick_def to_csv_def
          print_def world0_def Let_def never_raises_def)
       (simp_all add: table_two_scripts_def os_ok_def)
  with nc show ?thesis by simp
qed


subsection \<open>A date that cannot be parsed\<close>




subsection \<open>The date in the file name\<close>




end
